theory Spec2Isabelle
  imports Complex_Main
begin

section \<open>Python values used by the annotator\<close>

text \<open>
  Exceptions are values. \<open>KeyError k\<close> is a failed subscript \<open>d[k]\<close>,
  \<open>ValueError m\<close> carries the message of the raising operation, \<open>TypeError\<close> is an
  unsupported comparison, \<open>AttributeError a\<close> is a read of an attribute \<open>self.a\<close> that has
  not been assigned, and \<open>External m\<close> stands for anything raised by a collaborator
  (file system, cache client, JSON codec, an overriding scoring method).
\<close>

datatype error =
  KeyError string | ValueError string | TypeError | AttributeError string | External string

text \<open>
  A Python \<open>dict\<close> keeps insertion order: assigning to a present key replaces the value
  in place, assigning to a new key appends it. Dicts are association lists with that
  update; \<open>map_of\<close> is the lookup.
\<close>

fun dict_set :: "('k \<times> 'v) list \<Rightarrow> 'k \<Rightarrow> 'v \<Rightarrow> ('k \<times> 'v) list" where
  "dict_set [] k v = [(k, v)]"
| "dict_set ((k', v') # kvs) k v =
     (if k' = k then (k, v) # kvs else (k', v') # dict_set kvs k v)"

subsection \<open>Strings\<close>

text \<open>
  \<open>str.strip()\<close> removes the characters for which \<open>str.isspace\<close> holds from both ends.
  A character is a code point below 256. Among these \<open>str.isspace\<close> holds for tab, line
  feed, vertical tab, form feed, carriage return, the four separators 0x1C..0x1F, the
  space, the next-line character 0x85 and the no-break space 0xA0.
\<close>

definition whitespace :: "char list" where
  "whitespace = [CHR 0x09, CHR 0x0A, CHR 0x0B, CHR 0x0C, CHR 0x0D,
                 CHR 0x1C, CHR 0x1D, CHR 0x1E, CHR 0x1F, CHR 0x20, CHR 0x85, CHR 0xA0]"

definition is_space :: "char \<Rightarrow> bool" where
  "is_space c = (c \<in> set whitespace)"

definition lstrip :: "string \<Rightarrow> string" where
  "lstrip s = dropWhile is_space s"

definition rstrip :: "string \<Rightarrow> string" where
  "rstrip s = rev (dropWhile is_space (rev s))"

definition strip :: "string \<Rightarrow> string" where
  "strip s = rstrip (lstrip s)"

definition startswith :: "string \<Rightarrow> string \<Rightarrow> bool" where
  "startswith s p = (take (length p) s = p)"

text \<open>\<open>s.split(c)[0]\<close>: the text before the first \<open>c\<close>, all of \<open>s\<close> when there is none.\<close>

definition split_head :: "char \<Rightarrow> string \<Rightarrow> string" where
  "split_head c s = takeWhile (\<lambda>x. x \<noteq> c) s"

text \<open>
  \<open>s.split(c, 1)\<close> unpacked into two names: the text before and after the first \<open>c\<close>;
  without a \<open>c\<close> the list has one element and the unpacking raises \<open>ValueError\<close>.
\<close>

definition split_once :: "char \<Rightarrow> string \<Rightarrow> error + (string \<times> string)" where
  "split_once c s =
     (if c \<in> set s
      then Inr (takeWhile (\<lambda>x. x \<noteq> c) s, drop 1 (dropWhile (\<lambda>x. x \<noteq> c) s))
      else Inl (ValueError ''not enough values to unpack (expected 2, got 1)''))"

section \<open>The ontology parser\<close>

text \<open>
  The dict built for one term block. The source creates it with the four container keys
  and adds \<open>id\<close>, \<open>name\<close> and \<open>definition\<close> only when the block has such a line, so
  these three are optional.
\<close>

record term_record =
  t_id :: "string option"
  t_name :: "string option"
  t_definition :: "string option"
  synonyms :: "string list"
  xrefs :: "string list"
  relationships :: "(string \<times> string) list"
  properties :: "(string \<times> string) list"

definition new_term :: term_record where
  "new_term = \<lparr>t_id = None, t_name = None, t_definition = None, synonyms = [],
               xrefs = [], relationships = [], properties = []\<rparr>"

type_synonym ontology = "(string \<times> term_record) list"

text \<open>
  The parser's loop state: \<open>terms\<close> and \<open>current_term\<close>. A term dict always holds its
  four container keys, so \<open>if current_term\<close> tests exactly for \<open>None\<close>.
\<close>

type_synonym parse_state = "ontology \<times> term_record option"

text \<open>\<open>terms[current_term['id']] = current_term\<close>; the subscript raises without an id.\<close>

definition store_term :: "ontology \<Rightarrow> term_record \<Rightarrow> error + ontology" where
  "store_term terms t =
     (case t_id t of
        None \<Rightarrow> Inl (KeyError ''id'')
      | Some i \<Rightarrow> Inr (dict_set terms i t))"

text \<open>The \<open>if key == ...\<close> chain applied to an open block.\<close>

definition set_field :: "term_record \<Rightarrow> string \<Rightarrow> string \<Rightarrow> error + term_record" where
  "set_field t key val =
     (if key = ''id'' then Inr (t\<lparr>t_id := Some val\<rparr>)
      else if key = ''name'' then Inr (t\<lparr>t_name := Some val\<rparr>)
      else if key = ''def'' then Inr (t\<lparr>t_definition := Some val\<rparr>)
      else if key = ''synonym'' then Inr (t\<lparr>synonyms := synonyms t @ [val]\<rparr>)
      else if key = ''xref'' then Inr (t\<lparr>xrefs := xrefs t @ [val]\<rparr>)
      else if key = ''is_a'' then
        Inr (t\<lparr>relationships :=
                 relationships t @ [(''is_a'', strip (split_head CHR ''!'' val))]\<rparr>)
      else if key = ''relationship'' then
        (case split_once CHR '' '' val of
           Inl e \<Rightarrow> Inl e
         | Inr (rel_type, target) \<Rightarrow>
             Inr (t\<lparr>relationships :=
                      relationships t @ [(rel_type, strip (split_head CHR ''!'' target))]\<rparr>))
      else Inr (t\<lparr>properties := dict_set (properties t) key val\<rparr>))"

text \<open>
  One iteration of \<open>for line in f\<close>. \<open>line.split(':', 1)\<close> is taken only when the
  line has a colon, so it yields the text before the first colon and the text after it.
\<close>

definition parse_line :: "parse_state \<Rightarrow> string \<Rightarrow> error + parse_state" where
  "parse_line st raw =
     (let line = strip raw; terms = fst st; current_term = snd st in
      if startswith line ''[Term]'' then
        (case current_term of
           None \<Rightarrow> Inr (terms, Some new_term)
         | Some t \<Rightarrow>
             (case store_term terms t of
                Inl e \<Rightarrow> Inl e
              | Inr terms' \<Rightarrow> Inr (terms', Some new_term)))
      else
        (case current_term of
           None \<Rightarrow> Inr st
         | Some t \<Rightarrow>
             if line = [] then Inr st
             else if CHR '':'' \<in> set line then
               (case set_field t (split_head CHR '':'' line)
                       (strip (drop 1 (dropWhile (\<lambda>x. x \<noteq> CHR '':'') line))) of
                  Inl e \<Rightarrow> Inl e
                | Inr t' \<Rightarrow> Inr (terms, Some t'))
             else Inr st))"

fun parse_lines :: "parse_state \<Rightarrow> string list \<Rightarrow> error + parse_state" where
  "parse_lines st [] = Inr st"
| "parse_lines st (l # ls) =
     (case parse_line st l of
        Inl e \<Rightarrow> Inl e
      | Inr st' \<Rightarrow> parse_lines st' ls)"

text \<open>After the loop: \<open>if current_term: terms[current_term['id']] = current_term\<close>.\<close>

definition finish :: "parse_state \<Rightarrow> error + ontology" where
  "finish st =
     (case snd st of
        None \<Rightarrow> Inr (fst st)
      | Some t \<Rightarrow> store_term (fst st) t)"

definition parse_obo_lines :: "string list \<Rightarrow> error + ontology" where
  "parse_obo_lines lines =
     (case parse_lines ([], None) lines of
        Inl e \<Rightarrow> Inl e
      | Inr st \<Rightarrow> finish st)"

text \<open>
  \<open>_parse_obo_file\<close>: the file system is a function from paths to the lines of the file,
  or the error \<open>open\<close> raises.
\<close>

definition parse_obo_file :: "(string \<Rightarrow> error + string list) \<Rightarrow> string \<Rightarrow> error + ontology" where
  "parse_obo_file fs file_path =
     (case fs file_path of
        Inl e \<Rightarrow> Inl e
      | Inr lines \<Rightarrow> parse_obo_lines lines)"

section \<open>Tables\<close>

text \<open>
  A cell of a data frame holds a string (the sequence and other text columns), a float
  (confidences) or a list of term ids (the annotation columns). A finite float is
  modelled by the real number it denotes, so comparisons of floats are comparisons of
  reals; NaN and the infinities are not represented. A row is the dict of its columns in column order, a
  frame the list of its rows. Assigning a column sets it in every row: an existing column
  keeps its position, a new one is appended.
\<close>

datatype cell = Str string | Num real | Terms "string list"

text \<open>The float64 value of the literal \<open>0.8\<close>, which is \<open>3602879701896397 / 2 ^ 52\<close>.\<close>

abbreviation float_0_8 :: real where
  "float_0_8 \<equiv> 3602879701896397 / 4503599627370496"

type_synonym row = "(string \<times> cell) list"

type_synonym frame = "row list"

text \<open>\<open>frame[col] = values\<close>, used only with one value per row.\<close>

definition set_column :: "frame \<Rightarrow> string \<Rightarrow> cell list \<Rightarrow> frame" where
  "set_column fr col vals = map (\<lambda>(r, v). dict_set r col v) (zip fr vals)"

text \<open>Python truthiness of a cell: empty strings, zero and empty lists are false.\<close>

fun truthy :: "cell \<Rightarrow> bool" where
  "truthy (Str s) = (s \<noteq> [])"
| "truthy (Num x) = (x \<noteq> 0)"
| "truthy (Terms ts) = (ts \<noteq> [])"

record config =
  max_workers :: int
  batch_size :: int
  cache_expiry :: int
  min_confidence :: real

section \<open>Matching\<close>

text \<open>
  \<open>_calculate_match_confidence\<close> is a method looked up on \<open>self\<close>, so the engine works
  with whatever scoring the instance provides, and a scoring method may raise. The
  functions below take the scoring as the parameter \<open>score\<close>; the class's own method is
  the placeholder that returns \<open>0.0\<close>.
\<close>

type_synonym scoring = "cell \<Rightarrow> term_record \<Rightarrow> error + real"

definition calculate_match_confidence :: scoring where
  "calculate_match_confidence sequence term_data = Inr 0"

text \<open>
  \<open>np.mean\<close> is numpy's function; the engine only passes it the list of retained scores.
  The functions below take it as the parameter \<open>mean\<close>, from a non-empty list of floats
  to a float.
\<close>

type_synonym averaging = "real list \<Rightarrow> real"

text \<open>
  Float64 arithmetic, for evaluating \<open>np.mean\<close> on concrete lists. \<open>round_float64\<close>
  rounds a real to the nearest float64 with 53 significant bits, ties to the even
  significand; results outside the normal range (overflow, subnormal numbers) are not
  modelled. \<open>float64_mean\<close> adds the values one after the other, rounding every sum,
  and rounds the quotient by the count; \<open>np.mean\<close> returns this value on the short lists
  used below.
\<close>

definition pow2 :: "int \<Rightarrow> real" where
  "pow2 e = (if 0 \<le> e then 2 ^ nat e else 1 / 2 ^ nat (- e))"

definition round_half_even :: "real \<Rightarrow> int" where
  "round_half_even x =
     (if x - of_int \<lfloor>x\<rfloor> < 1 / 2 then \<lfloor>x\<rfloor>
      else if 1 / 2 < x - of_int \<lfloor>x\<rfloor> then \<lfloor>x\<rfloor> + 1
      else if even \<lfloor>x\<rfloor> then \<lfloor>x\<rfloor> else \<lfloor>x\<rfloor> + 1)"

definition float64_exponent :: "real \<Rightarrow> int" where
  "float64_exponent x = \<lfloor>log 2 \<bar>x\<bar>\<rfloor>"

definition round_float64 :: "real \<Rightarrow> real" where
  "round_float64 x =
     (if x = 0 then 0
      else of_int (round_half_even (x / pow2 (float64_exponent x - 52))) *
           pow2 (float64_exponent x - 52))"

fun float64_sum :: "real \<Rightarrow> real list \<Rightarrow> real" where
  "float64_sum acc [] = acc"
| "float64_sum acc (x # xs) = float64_sum (round_float64 (acc + x)) xs"

definition float64_mean :: averaging where
  "float64_mean xs = round_float64 (float64_sum 0 xs / real (length xs))"

text \<open>
  The loop \<open>for term_id, term_data in ontology.items()\<close> with its two accumulators
  \<open>matches\<close> and \<open>confidence_scores\<close>.
\<close>

fun match_loop ::
  "scoring \<Rightarrow> real \<Rightarrow> cell \<Rightarrow> ontology \<Rightarrow> string list \<Rightarrow> real list
     \<Rightarrow> error + (string list \<times> real list)" where
  "match_loop score mc sequence [] matches confidence_scores =
     Inr (matches, confidence_scores)"
| "match_loop score mc sequence ((term_id, term_data) # rest) matches confidence_scores =
     (case score sequence term_data of
        Inl e \<Rightarrow> Inl e
      | Inr confidence \<Rightarrow>
          if confidence \<ge> mc
          then match_loop score mc sequence rest
                 (matches @ [term_id]) (confidence_scores @ [confidence])
          else match_loop score mc sequence rest matches confidence_scores)"

definition find_matching_terms ::
  "averaging \<Rightarrow> scoring \<Rightarrow> real \<Rightarrow> (string \<times> ontology) list \<Rightarrow> row \<Rightarrow> string
     \<Rightarrow> error + (string list \<times> real)" where
  "find_matching_terms mean score mc onts r ontology_name =
     (case map_of onts ontology_name of
        None \<Rightarrow> Inl (KeyError ontology_name)
      | Some ontology \<Rightarrow>
          (case map_of r ''sequence'' of
             None \<Rightarrow> Inl (KeyError ''sequence'')
           | Some sequence \<Rightarrow>
               (case match_loop score mc sequence ontology [] [] of
                  Inl e \<Rightarrow> Inl e
                | Inr (matches, confidence_scores) \<Rightarrow>
                    if matches \<noteq> [] then Inr (matches, mean confidence_scores)
                    else Inr ([], 0))))"

section \<open>Annotating a batch\<close>

text \<open>The inner loop \<open>for _, row in batch.iterrows()\<close>, stopping at the first raise.\<close>

fun rows_loop :: "(row \<Rightarrow> error + 'a) \<Rightarrow> frame \<Rightarrow> error + 'a list" where
  "rows_loop f [] = Inr []"
| "rows_loop f (r # rs) =
     (case f r of
        Inl e \<Rightarrow> Inl e
      | Inr x \<Rightarrow> (case rows_loop f rs of Inl e \<Rightarrow> Inl e | Inr xs \<Rightarrow> Inr (x # xs)))"

text \<open>
  The outer loop over \<open>required_ontologies\<close>. Rows are read from \<open>batch\<close>; the columns
  are set on the copy \<open>annotated_batch\<close>. An ontology that is not loaded is skipped.
\<close>

fun annotate_loop ::
  "averaging \<Rightarrow> scoring \<Rightarrow> real \<Rightarrow> (string \<times> ontology) list \<Rightarrow> frame \<Rightarrow> string list \<Rightarrow> frame
     \<Rightarrow> error + frame" where
  "annotate_loop mean score mc onts batch [] annotated_batch = Inr annotated_batch"
| "annotate_loop mean score mc onts batch (ontology_name # rest) annotated_batch =
     (if map_of onts ontology_name = None
      then annotate_loop mean score mc onts batch rest annotated_batch
      else
        (case rows_loop (\<lambda>r. find_matching_terms mean score mc onts r ontology_name) batch of
           Inl e \<Rightarrow> Inl e
         | Inr results \<Rightarrow>
             annotate_loop mean score mc onts batch rest
               (set_column
                  (set_column annotated_batch (ontology_name @ ''_annotation'')
                     (map (\<lambda>res. Terms (fst res)) results))
                  (ontology_name @ ''_confidence'')
                  (map (\<lambda>res. Num (snd res)) results))))"

definition annotate_batch ::
  "averaging \<Rightarrow> scoring \<Rightarrow> real \<Rightarrow> (string \<times> ontology) list \<Rightarrow> frame \<Rightarrow> string list \<Rightarrow> error + frame" where
  "annotate_batch mean score mc onts batch required = annotate_loop mean score mc onts batch required batch"

section \<open>Annotating a data set\<close>

text \<open>\<open>range(0, n, step)\<close>: a zero step raises, a negative one gives the empty range.\<close>

definition py_range :: "nat \<Rightarrow> int \<Rightarrow> error + nat list" where
  "py_range n step =
     (if step = 0 then Inl (ValueError ''range() arg 3 must not be zero'')
      else if step < 0 then Inr []
      else Inr (map (\<lambda>k. k * nat step) [0..<(n + nat step - 1) div nat step]))"

text \<open>The list comprehension of slices \<open>sequence_data[i:i + batch_size]\<close>.\<close>

definition make_batches :: "frame \<Rightarrow> int \<Rightarrow> error + frame list" where
  "make_batches sequence_data bs =
     (case py_range (length sequence_data) bs of
        Inl e \<Rightarrow> Inl e
      | Inr starts \<Rightarrow> Inr (map (\<lambda>i. take (nat bs) (drop i sequence_data)) starts))"

text \<open>
  The thread pool. Every batch is submitted as one task; the workers complete tasks in an
  order the program does not control. \<open>completed\<close> lists the tasks the workers have
  finished when the main thread starts to collect, in completion order; \<open>executor_run\<close>
  is the table of finished futures. \<open>future.result()\<close> returns the stored outcome of a
  finished task and otherwise waits for the task, whose outcome is that of running it.
  A task only reads the ontologies and the configuration, so its outcome is a function of
  the batch.
\<close>

definition executor_run :: "('a \<Rightarrow> 'b) \<Rightarrow> 'a list \<Rightarrow> nat list \<Rightarrow> (nat \<Rightarrow> 'b option)" where
  "executor_run f tasks completed =
     foldl (\<lambda>finished i. if i < length tasks then finished(i \<mapsto> f (tasks ! i)) else finished)
       (\<lambda>i. None) completed"

definition future_result :: "('a \<Rightarrow> 'b) \<Rightarrow> 'a list \<Rightarrow> (nat \<Rightarrow> 'b option) \<Rightarrow> nat \<Rightarrow> 'b" where
  "future_result f tasks finished i =
     (case finished i of Some r \<Rightarrow> r | None \<Rightarrow> f (tasks ! i))"

text \<open>What the annotator writes to its log, by event.\<close>

datatype log_entry =
  LoadedFromCache string
| LoadedFromFile string string
| LoadFailed string error
| BatchFailed error

text \<open>
  The collecting loop \<open>for future in futures\<close>: a result is appended, a raise is logged
  and the loop goes on.
\<close>

fun collect ::
  "(error + frame) list \<Rightarrow> frame list \<Rightarrow> log_entry list \<Rightarrow> frame list \<times> log_entry list" where
  "collect [] annotated_batches lg = (annotated_batches, lg)"
| "collect (Inr b # rest) annotated_batches lg = collect rest (annotated_batches @ [b]) lg"
| "collect (Inl e # rest) annotated_batches lg = collect rest annotated_batches (lg @ [BatchFailed e])"

text \<open>\<open>pd.concat(frames, ignore_index=True)\<close> raises on an empty list.\<close>

definition pd_concat :: "frame list \<Rightarrow> error + frame" where
  "pd_concat frames =
     (if frames = [] then Inl (ValueError ''No objects to concatenate'')
      else Inr (concat frames))"

text \<open>
  \<open>annotate_sequence\<close> returns the log lines of the collecting loop and the frame or the
  exception. Writing the result to the document store and to the output file happens
  after the merge, inside \<open>try\<close> blocks, and does not change the returned frame.
\<close>

definition annotate_sequence ::
  "config \<Rightarrow> averaging \<Rightarrow> scoring \<Rightarrow> (string \<times> ontology) list \<Rightarrow> nat list \<Rightarrow> frame \<Rightarrow> string list
     \<Rightarrow> log_entry list \<times> (error + frame)" where
  "annotate_sequence cfg mean score onts completed sequence_data required =
     (case make_batches sequence_data (batch_size cfg) of
        Inl e \<Rightarrow> ([], Inl e)
      | Inr batches \<Rightarrow>
          if max_workers cfg \<le> 0
          then ([], Inl (ValueError ''max_workers must be greater than 0''))
          else
            (let task = (\<lambda>b. annotate_batch mean score (min_confidence cfg) onts b required);
                 finished = executor_run task batches completed;
                 results = map (future_result task batches finished) [0..<length batches];
                 (annotated_batches, lg) = collect results [] []
             in (lg, pd_concat annotated_batches)))"

section \<open>Validation\<close>

text \<open>
  The rules dict is read with \<open>get\<close> and defaults, so both keys are optional.
\<close>

record validation_rules =
  required_ontologies :: "string list option"
  rule_min_confidence :: "real option"

text \<open>
  \<open>row.get(col)\<close> is \<open>None\<close> for a missing column, and \<open>not None\<close> is true.
\<close>

definition annotation_missing :: "row \<Rightarrow> string \<Rightarrow> bool" where
  "annotation_missing r ontology =
     (case map_of r (ontology @ ''_annotation'') of
        None \<Rightarrow> True
      | Some v \<Rightarrow> \<not> truthy v)"

text \<open>\<open>row.get(col, 0)\<close>.\<close>

definition confidence_cell :: "row \<Rightarrow> string \<Rightarrow> cell" where
  "confidence_cell r ontology =
     (case map_of r (ontology @ ''_confidence'') of
        None \<Rightarrow> Num 0
      | Some v \<Rightarrow> v)"

text \<open>\<open>confidence < threshold\<close>; a string or a list against a float raises.\<close>

fun cell_less :: "cell \<Rightarrow> real \<Rightarrow> error + bool" where
  "cell_less (Num x) thr = Inr (x < thr)"
| "cell_less (Str s) thr = Inl TypeError"
| "cell_less (Terms ts) thr = Inl TypeError"

text \<open>The loop of \<open>_validate_row\<close> with its early returns.\<close>

fun validate_loop :: "row \<Rightarrow> real \<Rightarrow> string list \<Rightarrow> error + string" where
  "validate_loop r thr [] = Inr ''PASS''"
| "validate_loop r thr (ontology # rest) =
     (if annotation_missing r ontology then Inr ''MISSING_REQUIRED_ANNOTATION''
      else
        (case cell_less (confidence_cell r ontology) thr of
           Inl e \<Rightarrow> Inl e
         | Inr low \<Rightarrow> if low then Inr ''LOW_CONFIDENCE'' else validate_loop r thr rest))"

text \<open>\<open>validation_rules.get('required_ontologies', [])\<close>.\<close>

definition rules_required :: "validation_rules \<Rightarrow> string list" where
  "rules_required rules = (case required_ontologies rules of None \<Rightarrow> [] | Some os \<Rightarrow> os)"

text \<open>\<open>validation_rules.get('min_confidence', 0.8)\<close>.\<close>

definition rules_threshold :: "validation_rules \<Rightarrow> real" where
  "rules_threshold rules = (case rule_min_confidence rules of None \<Rightarrow> float_0_8 | Some m \<Rightarrow> m)"

definition validate_row :: "row \<Rightarrow> validation_rules \<Rightarrow> error + string" where
  "validate_row r rules = validate_loop r (rules_threshold rules) (rules_required rules)"

text \<open>
  \<open>validate_annotations\<close>: \<open>apply(..., axis=1)\<close> calls \<open>_validate_row\<close> on every row and
  the verdicts become the column \<open>validation_status\<close> of a copy.
\<close>

definition validate_annotations :: "frame \<Rightarrow> validation_rules \<Rightarrow> error + frame" where
  "validate_annotations annotated_data rules =
     (case rows_loop (\<lambda>r. validate_row r rules) annotated_data of
        Inl e \<Rightarrow> Inl e
      | Inr verdicts \<Rightarrow> Inr (set_column annotated_data ''validation_status'' (map Str verdicts)))"

section \<open>Loading ontologies\<close>

text \<open>
  The collaborators of the loader. The cache client answers \<open>get\<close> with the stored bytes,
  with \<open>None\<close>, or by raising; \<open>setex\<close> succeeds or raises. The file system and the JSON
  codec are functions that may raise as well.
\<close>

record redis_client =
  redis_get :: "string \<Rightarrow> error + string option"
  redis_setex :: "string \<Rightarrow> int \<Rightarrow> string \<Rightarrow> error + unit"

record environment =
  fs :: "string \<Rightarrow> error + string list"
  json_loads :: "string \<Rightarrow> error + ontology"
  json_dumps :: "ontology \<Rightarrow> error + string"

text \<open>
  The attributes of \<open>self\<close> the loader touches. \<open>redis_client\<close> and \<open>config\<close> are
  assigned by \<open>__init__\<close> after its call of \<open>_load_ontologies\<close>; an attribute that has
  not been assigned is \<open>None\<close> here and reading it raises \<open>AttributeError\<close>. An assigned
  \<open>redis_client\<close> is \<open>Some None\<close> without a cache and \<open>Some (Some r)\<close> with the client
  \<open>r\<close>.
\<close>

record annotator =
  self_ontologies :: "(string \<times> ontology) list"
  self_logger :: "log_entry list"
  self_redis_client :: "redis_client option option"
  self_config :: "config option"

text \<open>
  The block \<open>if self.redis_client: ...\<close> before the parse: the cached graph on a hit,
  \<open>None\<close> without a client or on a miss (\<open>None\<close> or empty bytes).
\<close>

definition cache_lookup ::
  "environment \<Rightarrow> redis_client option \<Rightarrow> string \<Rightarrow> error + ontology option" where
  "cache_lookup env rc ontology_name =
     (case rc of
        None \<Rightarrow> Inr None
      | Some r \<Rightarrow>
          (case redis_get r (''ontology:'' @ ontology_name) of
             Inl e \<Rightarrow> Inl e
           | Inr None \<Rightarrow> Inr None
           | Inr (Some cached_ontology) \<Rightarrow>
               if cached_ontology = [] then Inr None
               else
                 (case json_loads env cached_ontology of
                    Inl e \<Rightarrow> Inl e
                  | Inr g \<Rightarrow> Inr (Some g))))"

text \<open>
  The block \<open>if self.redis_client: self.redis_client.setex(...)\<close> after the parse; the
  arguments are evaluated from left to right, \<open>self.config\<close> (here \<open>config_attr\<close>, \<open>None\<close>
  while unassigned) before \<open>json.dumps\<close>.
\<close>

definition cache_store ::
  "environment \<Rightarrow> config option \<Rightarrow> redis_client option \<Rightarrow> string \<Rightarrow> ontology
     \<Rightarrow> error + unit" where
  "cache_store env config_attr rc ontology_name g =
     (case rc of
        None \<Rightarrow> Inr ()
      | Some r \<Rightarrow>
          (case config_attr of
             None \<Rightarrow> Inl (AttributeError ''config'')
           | Some cfg \<Rightarrow>
               (case json_dumps env g of
                  Inl e \<Rightarrow> Inl e
                | Inr bytes \<Rightarrow> redis_setex r (''ontology:'' @ ontology_name) (cache_expiry cfg) bytes)))"

text \<open>
  The body of the \<open>try\<close>: the state it leaves and the exception it raised, if any.
  Assignments made before a raise stay.
\<close>

definition load_body ::
  "environment \<Rightarrow> annotator \<Rightarrow> string \<Rightarrow> string \<Rightarrow> annotator \<times> error option" where
  "load_body env self ontology_name file_path =
     (case self_redis_client self of
        None \<Rightarrow> (self, Some (AttributeError ''redis_client''))
      | Some rc \<Rightarrow>
          (case cache_lookup env rc ontology_name of
             Inl e \<Rightarrow> (self, Some e)
           | Inr (Some g) \<Rightarrow>
               (self\<lparr>self_ontologies := dict_set (self_ontologies self) ontology_name g,
                      self_logger := self_logger self @ [LoadedFromCache ontology_name]\<rparr>, None)
           | Inr None \<Rightarrow>
               (case parse_obo_file (fs env) file_path of
                  Inl e \<Rightarrow> (self, Some e)
                | Inr g \<Rightarrow>
                    (let self1 = self\<lparr>self_ontologies :=
                                        dict_set (self_ontologies self) ontology_name g\<rparr>
                     in case cache_store env (self_config self1) rc ontology_name g of
                          Inl e \<Rightarrow> (self1, Some e)
                        | Inr u \<Rightarrow>
                            (self1\<lparr>self_logger := self_logger self1 @
                                      [LoadedFromFile ontology_name file_path]\<rparr>, None)))))"

text \<open>One iteration of the loop: the \<open>try\<close> body and the \<open>except Exception\<close> handler.\<close>

definition load_one :: "environment \<Rightarrow> annotator \<Rightarrow> string \<times> string \<Rightarrow> annotator" where
  "load_one env self item =
     (case load_body env self (fst item) (snd item) of
        (self', None) \<Rightarrow> self'
      | (self', Some e) \<Rightarrow>
          self'\<lparr>self_logger := self_logger self' @ [LoadFailed (fst item) e]\<rparr>)"

definition load_ontologies ::
  "environment \<Rightarrow> annotator \<Rightarrow> (string \<times> string) list \<Rightarrow> annotator" where
  "load_ontologies env self ontology_files = foldl (load_one env) self ontology_files"

text \<open>
  \<open>__init__\<close>: the ontologies are loaded before \<open>redis_client\<close> and \<open>config\<close> are
  assigned. \<open>rc\<close> is the client made from the URL, if one was given.
\<close>

definition init ::
  "environment \<Rightarrow> (string \<times> string) list \<Rightarrow> redis_client option \<Rightarrow> config \<Rightarrow> annotator" where
  "init env ontology_files rc cfg =
     (let self0 = \<lparr>self_ontologies = [], self_logger = [], self_redis_client = None,
                   self_config = None\<rparr>;
          self1 = load_ontologies env self0 ontology_files
      in self1\<lparr>self_redis_client := Some rc, self_config := Some cfg\<rparr>)"

section \<open>Term blocks as the specification describes them\<close>
















section \<open>Properties of the parser\<close>

lemmas string_ops =
  strip_def lstrip_def rstrip_def is_space_def whitespace_def startswith_def split_head_def
  split_once_def

lemma map_of_dict_set: "map_of (dict_set kvs k v) = (map_of kvs)(k \<mapsto> v)"
  by (induction kvs) auto

lemma parse_lines_append:
  "parse_lines st (xs @ ys) =
     (case parse_lines st xs of Inl e \<Rightarrow> Inl e | Inr st' \<Rightarrow> parse_lines st' ys)"
  by (induction xs arbitrary: st) (auto split: sum.splits)





text \<open>
  C1, as amended. When the parser comes to finalize a term block that has no \<open>id\<close>, at
  the next \<open>[Term]\<close> line or at the end of the input, the subscript
  \<open>current_term['id']\<close> raises \<open>KeyError\<close> and the parse of the file ends there without a
  mapping. The loader catches the exception: it registers nothing for that ontology,
  logs the failed load and goes on to the next ontology.
\<close>

theorem missing_id_aborts_parse:
  assumes "parse_lines ([], None) pre = Inr (terms, Some t)" and "t_id t = None"
    and "post = [] \<or> startswith (strip (hd post)) ''[Term]''"
  shows "parse_obo_lines (pre @ post) = Inl (KeyError ''id'') \<and>
    (\<forall>env self rc nm path.
       fs env path = Inr (pre @ post) \<and> self_redis_client self = Some rc \<and>
       cache_lookup env rc nm = Inr None \<longrightarrow>
       load_one env self (nm, path) =
         self\<lparr>self_logger := self_logger self @ [LoadFailed nm (KeyError ''id'')]\<rparr>)"
proof -
  have p: "parse_obo_lines (pre @ post) = Inl (KeyError ''id'')"
  proof (cases post)
    case Nil
    with assms show ?thesis by (simp add: parse_obo_lines_def finish_def store_term_def)
  next
    case (Cons l ls)
    with assms have "parse_line (terms, Some t) l = Inl (KeyError ''id'')"
      by (simp add: parse_line_def store_term_def)
    with assms Cons show ?thesis
      by (simp add: parse_obo_lines_def parse_lines_append)
  qed
  then show ?thesis
    by (simp add: load_one_def load_body_def parse_obo_file_def)
qed

theorem missing_id_aborts_parse_witness:
  "parse_lines ([], None) [''[Term]'', ''name: x''] = Inr ([], Some (new_term\<lparr>t_name := Some ''x''\<rparr>)) \<and>
   parse_obo_lines ([''[Term]'', ''name: x''] @ [''[Term]'', ''id: GO:2'']) = Inl (KeyError ''id'') \<and>
   load_one \<lparr>fs = (\<lambda>p. Inr ([''[Term]'', ''name: x''] @ [''[Term]'', ''id: GO:2''])),
             json_loads = (\<lambda>b. Inr []), json_dumps = (\<lambda>g. Inr [])\<rparr>
     \<lparr>self_ontologies = [], self_logger = [], self_redis_client = Some None, self_config = None\<rparr>
     (''GO'', ''go.obo'') =
     \<lparr>self_ontologies = [], self_logger = [LoadFailed ''GO'' (KeyError ''id'')],
       self_redis_client = Some None, self_config = None\<rparr>"
proof -
  have a: "parse_lines ([], None) [''[Term]'', ''name: x''] = Inr ([], Some (new_term\<lparr>t_name := Some ''x''\<rparr>))"
    by (simp add: parse_line_def set_field_def string_ops)
  have b: "t_id (new_term\<lparr>t_name := Some ''x''\<rparr>) = None"
    by (simp add: new_term_def)
  have c: "[''[Term]'', ''id: GO:2''] = [] \<or> startswith (strip (hd [''[Term]'', ''id: GO:2''])) ''[Term]''"
    by (simp add: string_ops)
  note th = missing_id_aborts_parse [OF a b c]
  show ?thesis
    using a th [THEN conjunct1]
      th [THEN conjunct2, rule_format,
        of "\<lparr>fs = (\<lambda>p. Inr ([''[Term]'', ''name: x''] @ [''[Term]'', ''id: GO:2''])),
             json_loads = (\<lambda>b. Inr []), json_dumps = (\<lambda>g. Inr [])\<rparr>" "''go.obo''"
           "\<lparr>self_ontologies = [], self_logger = [], self_redis_client = Some None, self_config = None\<rparr>"
           None "''GO''"]
    by (simp add: cache_lookup_def)
qed

text \<open>
  A block without \<open>id\<close> followed by a well-formed block: the parse returns no mapping,
  although the second block alone parses.
\<close>

theorem missing_id_counterexample:
  "parse_obo_lines [''[Term]'', ''name: x'', ''[Term]'', ''id: GO:2''] = Inl (KeyError ''id'') \<and>
   parse_obo_lines [''[Term]'', ''id: GO:2''] = Inr [(''GO:2'', new_term\<lparr>t_id := Some ''GO:2''\<rparr>)]"
  by (simp add: parse_obo_lines_def parse_line_def finish_def store_term_def set_field_def
      new_term_def string_ops)

section \<open>Properties of matching\<close>

subsection \<open>Evaluating float64 rounding\<close>

lemma pow2_powr: "pow2 e = 2 powr real_of_int e"
  by (simp add: pow2_def powr_real_of_int field_simps)

lemma float64_exponent_eq:
  assumes "pow2 k \<le> \<bar>x\<bar>" and "\<bar>x\<bar> < pow2 (k + 1)"
  shows "float64_exponent x = k"
proof -
  have "0 < pow2 k" by (simp add: pow2_def)
  with assms(1) have pos: "0 < \<bar>x\<bar>" by linarith
  then have "\<lfloor>log 2 \<bar>x\<bar>\<rfloor> = k"
    using assms by (simp add: floor_log_eq_powr_iff pow2_powr)
  then show ?thesis
    by (simp add: float64_exponent_def)
qed

lemma round_float64_eval:
  assumes "pow2 k \<le> \<bar>x\<bar>" and "\<bar>x\<bar> < pow2 (k + 1)"
  shows "round_float64 x = of_int (round_half_even (x / pow2 (k - 52))) * pow2 (k - 52)"
proof -
  have "0 < pow2 k" by (simp add: pow2_def)
  with assms(1) have "x \<noteq> 0" by auto
  then show ?thesis
    by (simp add: round_float64_def float64_exponent_eq [OF assms])
qed

lemma round_float64_one: "round_float64 1 = 1"
  using round_float64_eval [of 0 1]
  by (simp add: pow2_def round_half_even_def)

lemma float64_mean_one: "float64_mean [1] = 1"
  by (simp add: float64_mean_def round_float64_one)

subsection \<open>Retained terms\<close>

lemma match_loop_filter:
  assumes "\<forall>x\<in>set ont. score sq (snd x) = Inr (sc (snd x))"
  shows "match_loop score mc sq ont ms cs =
           Inr (ms @ map fst (filter (\<lambda>x. mc \<le> sc (snd x)) ont),
                cs @ map (\<lambda>x. sc (snd x)) (filter (\<lambda>x. mc \<le> sc (snd x)) ont))"
  using assms
proof (induction ont arbitrary: ms cs)
  case Nil
  then show ?case by simp
next
  case (Cons a ont)
  obtain tid t where a: "a = (tid, t)" by (cases a)
  from Cons.prems have s: "score sq t = Inr (sc t)" and
    rest: "\<forall>x\<in>set ont. score sq (snd x) = Inr (sc (snd x))"
    by (simp_all add: a)
  show ?case
    using rest by (simp add: a s Cons.IH)
qed

text \<open>
  C4, as amended. For a record with a \<open>sequence\<close> and an ontology whose terms all get a
  score (\<open>sc\<close> names the score of a term), the matching step retains, in the order of the
  graph, exactly the terms whose score is at least \<open>min_confidence\<close>, so a score equal to
  the threshold is retained and a lower one is not. With at least one retained term the
  confidence is what \<open>np.mean\<close> returns for the list of retained scores in that order, a
  float64 that rounding can move away from the exact arithmetic mean; with none the
  result is the empty list and the confidence \<open>0\<close>.
\<close>

theorem find_matching_terms_threshold:
  assumes "map_of onts nm = Some ont" and "map_of r ''sequence'' = Some sq"
    and "\<forall>x\<in>set ont. score sq (snd x) = Inr (sc (snd x))"
  shows "find_matching_terms mean score mc onts r nm =
           Inr (map fst (filter (\<lambda>x. mc \<le> sc (snd x)) ont),
                if filter (\<lambda>x. mc \<le> sc (snd x)) ont = [] then 0
                else mean (map (\<lambda>x. sc (snd x)) (filter (\<lambda>x. mc \<le> sc (snd x)) ont)))"
proof -
  have "match_loop score mc sq ont [] [] =
          Inr ([] @ map fst (filter (\<lambda>x. mc \<le> sc (snd x)) ont),
               [] @ map (\<lambda>x. sc (snd x)) (filter (\<lambda>x. mc \<le> sc (snd x)) ont))"
    using assms(3) by (rule match_loop_filter)
  with assms(1,2) show ?thesis
    by (simp add: find_matching_terms_def)
qed

lemma float64_mean_witness_values:
  "float64_mean [float_0_8, 1] = 8106479329266893 / 9007199254740992"
proof -
  have a: "round_float64 (0 + float_0_8) = float_0_8"
    using round_float64_eval [of "-1" "0 + float_0_8"]
    by (simp add: pow2_def round_half_even_def)
  have b: "round_float64 (float_0_8 + 1) = 8106479329266893 / 4503599627370496"
    using round_float64_eval [of 0 "float_0_8 + 1"]
    by (simp add: pow2_def round_half_even_def)
  have c: "round_float64 (8106479329266893 / 9007199254740992) = 8106479329266893 / 9007199254740992"
    using round_float64_eval [of "-1" "8106479329266893 / 9007199254740992"]
    by (simp add: pow2_def round_half_even_def)
  show ?thesis
    by (simp only: float64_mean_def float64_sum.simps a b c list.size length_Cons)
      (simp add: c)
qed

theorem find_matching_terms_threshold_witness:
  "find_matching_terms float64_mean
     (\<lambda>sq t. Inr (if t_name t = Some ''exact'' then float_0_8
                   else if t_name t = Some ''below'' then 7205759403792793 / 9007199254740992
                   else 1))
     float_0_8
     [(''GO'', [(''GO:1'', new_term\<lparr>t_name := Some ''exact''\<rparr>),
               (''GO:2'', new_term\<lparr>t_name := Some ''below''\<rparr>),
               (''GO:3'', new_term)])]
     [(''sequence'', Str ''ACGU'')] ''GO'' =
     Inr ([''GO:1'', ''GO:3''], 8106479329266893 / 9007199254740992) \<and>
   find_matching_terms float64_mean calculate_match_confidence float_0_8
     [(''GO'', [(''GO:1'', new_term)])] [(''sequence'', Str ''ACGU'')] ''GO'' = Inr ([], 0)"
proof -
  let ?ont = "[(''GO:1'', new_term\<lparr>t_name := Some ''exact''\<rparr>),
               (''GO:2'', new_term\<lparr>t_name := Some ''below''\<rparr>),
               (''GO:3'', new_term)]"
  let ?sc = "\<lambda>t. if t_name t = Some ''exact'' then float_0_8
                   else if t_name t = Some ''below'' then 7205759403792793 / 9007199254740992
                   else (1 :: real)"
  let ?r = "[(''sequence'', Str ''ACGU'')]"
  have a: "map_of [(''GO'', ?ont)] ''GO'' = Some ?ont" by simp
  have b: "map_of ?r ''sequence'' = Some (Str ''ACGU'')" by simp
  have c: "\<forall>x\<in>set ?ont. (\<lambda>sq t. Inr (?sc t)) (Str ''ACGU'') (snd x) = Inr (?sc (snd x))"
    by simp
  have a': "map_of [(''GO'', [(''GO:1'', new_term)])] ''GO'' = Some [(''GO:1'', new_term)]" by simp
  have c': "\<forall>x\<in>set [(''GO:1'', new_term)].
      calculate_match_confidence (Str ''ACGU'') (snd x) = Inr ((\<lambda>t. 0) (snd x))"
    by (simp add: calculate_match_confidence_def)
  from find_matching_terms_threshold [where mean = float64_mean and mc = float_0_8
      and score = "\<lambda>sq t. Inr (?sc t)" and sc = ?sc, OF a b c]
    find_matching_terms_threshold [where mean = float64_mean and mc = float_0_8
      and score = calculate_match_confidence and sc = "\<lambda>t. 0", OF a' b c']
  show ?thesis
    by (simp add: new_term_def float64_mean_witness_values)
qed

text \<open>
  Six terms that each score the float64 \<open>0.8\<close>, with \<open>min_confidence\<close> the same float:
  all six are retained, and the float64 mean is one unit in the last place below
  \<open>0.8\<close>, so it is not the arithmetic mean of the retained scores and lies below the
  threshold that each of them meets.
\<close>

lemma float64_mean_six:
  "float64_mean [float_0_8, float_0_8, float_0_8, float_0_8, float_0_8, float_0_8] =
     7205759403792793 / 9007199254740992"
proof -
  have s1: "round_float64 (0 + float_0_8) = float_0_8"
    using round_float64_eval [of "-1" "0 + float_0_8"]
    by (simp add: pow2_def round_half_even_def)
  have s2: "round_float64 (float_0_8 + float_0_8) = 3602879701896397 / 2251799813685248"
    using round_float64_eval [of 0 "float_0_8 + float_0_8"]
    by (simp add: pow2_def round_half_even_def)
  have s3: "round_float64 (3602879701896397 / 2251799813685248 + float_0_8) =
      1351079888211149 / 562949953421312"
    using round_float64_eval [of 1 "3602879701896397 / 2251799813685248 + float_0_8"]
    by (simp add: pow2_def round_half_even_def)
  have s4: "round_float64 (1351079888211149 / 562949953421312 + float_0_8) =
      3602879701896397 / 1125899906842624"
    using round_float64_eval [of 1 "1351079888211149 / 562949953421312 + float_0_8"]
    by (simp add: pow2_def round_half_even_def)
  have s5: "round_float64 (3602879701896397 / 1125899906842624 + float_0_8) = 4"
    using round_float64_eval [of 2 "3602879701896397 / 1125899906842624 + float_0_8"]
    by (simp add: pow2_def round_half_even_def)
  have s6: "round_float64 (4 + float_0_8) = 5404319552844595 / 1125899906842624"
    using round_float64_eval [of 2 "4 + float_0_8"]
    by (simp add: pow2_def round_half_even_def)
  have q: "round_float64 (5404319552844595 / 6755399441055744) =
      7205759403792793 / 9007199254740992"
    using round_float64_eval [of "-1" "5404319552844595 / 6755399441055744"]
    by (simp add: pow2_def round_half_even_def)
  show ?thesis
    by (simp only: float64_mean_def float64_sum.simps s1 s2 s3 s4 s5 s6 list.size length_Cons)
      (simp add: q)
qed

theorem find_matching_terms_threshold_counterexample:
  "find_matching_terms float64_mean (\<lambda>sq t. Inr float_0_8) float_0_8
     [(''GO'', [(''GO:1'', new_term), (''GO:2'', new_term), (''GO:3'', new_term),
               (''GO:4'', new_term), (''GO:5'', new_term), (''GO:6'', new_term)])]
     [(''sequence'', Str ''ACGU'')] ''GO'' =
     Inr ([''GO:1'', ''GO:2'', ''GO:3'', ''GO:4'', ''GO:5'', ''GO:6''],
          7205759403792793 / 9007199254740992) \<and>
   sum_list [float_0_8, float_0_8, float_0_8, float_0_8, float_0_8, float_0_8] / 6 = float_0_8 \<and>
   (7205759403792793 / 9007199254740992 :: real) < float_0_8"
  by (simp add: find_matching_terms_def float64_mean_six)

section \<open>Properties of validation\<close>

lemma validate_loop_prefix:
  assumes "\<forall>ontology\<in>set pre. \<not> annotation_missing r ontology \<and>
             (\<exists>c. confidence_cell r ontology = Num c \<and> thr \<le> c)"
  shows "validate_loop r thr (pre @ rest) = validate_loop r thr rest"
  using assms by (induction pre) auto

lemma validate_loop_pass:
  "validate_loop r thr os = Inr ''PASS'' \<Longrightarrow> ontology \<in> set os \<Longrightarrow>
     \<not> annotation_missing r ontology \<and> (\<exists>c. confidence_cell r ontology = Num c \<and> thr \<le> c)"
proof (induction os)
  case Nil
  then show ?case by simp
next
  case (Cons a os)
  from Cons.prems(1) have m: "\<not> annotation_missing r a"
    by (auto split: if_splits)
  from Cons.prems(1) m obtain c where c: "confidence_cell r a = Num c"
    by (cases "confidence_cell r a") auto
  from Cons.prems(1) m c have low: "thr \<le> c" and rest: "validate_loop r thr os = Inr ''PASS''"
    by (auto split: if_splits)
  show ?case
  proof (cases "ontology = a")
    case True
    with m c low show ?thesis by simp
  next
    case False
    with Cons.prems(2) have "ontology \<in> set os" by simp
    with Cons.IH rest show ?thesis by blast
  qed
qed

lemma annotation_missing_iff:
  "annotation_missing r nm \<longleftrightarrow>
     map_of r (nm @ ''_annotation'') = None \<or> map_of r (nm @ ''_annotation'') = Some (Terms []) \<or>
     map_of r (nm @ ''_annotation'') = Some (Str []) \<or> map_of r (nm @ ''_annotation'') = Some (Num 0)"
proof (cases "map_of r (nm @ ''_annotation'')")
  case None
  then show ?thesis by (simp add: annotation_missing_def)
next
  case (Some v)
  then show ?thesis by (cases v) (simp_all add: annotation_missing_def)
qed

lemma annotation_present_iff:
  "\<not> annotation_missing r nm \<longleftrightarrow>
     (\<exists>v. map_of r (nm @ ''_annotation'') = Some v \<and> v \<noteq> Terms [] \<and> v \<noteq> Str [] \<and> v \<noteq> Num 0)"
  by (cases "map_of r (nm @ ''_annotation'')") (auto simp: annotation_missing_iff)

lemma confidence_cell_iff:
  "confidence_cell r nm = Num c \<longleftrightarrow>
     map_of r (nm @ ''_confidence'') = Some (Num c) \<or>
     map_of r (nm @ ''_confidence'') = None \<and> c = 0"
  by (cases "map_of r (nm @ ''_confidence'')") (auto simp: confidence_cell_def)

text \<open>
  C5. The validator goes through the required ontologies of the rules in list order,
  with the threshold the rules give (\<open>0.8\<close> when they give none). An ontology passes when
  its annotation column is present with a non-empty value and its confidence (\<open>0\<close> when
  the column is absent) is not below the threshold. If every ontology before \<open>nm\<close>
  passes, the verdict is \<open>MISSING_REQUIRED_ANNOTATION\<close> when the annotation of \<open>nm\<close> is
  absent or empty, and \<open>LOW_CONFIDENCE\<close> when it is present and non-empty and the
  confidence of \<open>nm\<close> is below the threshold, whatever the later ontologies hold. The
  verdict is \<open>PASS\<close> when every required ontology passes, and only then.
\<close>

theorem validate_row_first_failure:
  assumes "rule_min_confidence rules = Some thr \<or>
           rule_min_confidence rules = None \<and> thr = float_0_8"
    and "\<forall>p\<in>set pre.
           (\<exists>v. map_of r (p @ ''_annotation'') = Some v \<and>
                v \<noteq> Terms [] \<and> v \<noteq> Str [] \<and> v \<noteq> Num 0) \<and>
           (\<exists>c. thr \<le> c \<and>
                (map_of r (p @ ''_confidence'') = Some (Num c) \<or>
                 map_of r (p @ ''_confidence'') = None \<and> c = 0))"
  shows
    "(required_ontologies rules = Some (pre @ nm # post) \<and>
      (map_of r (nm @ ''_annotation'') = None \<or>
       map_of r (nm @ ''_annotation'') = Some (Terms []) \<or>
       map_of r (nm @ ''_annotation'') = Some (Str []) \<or>
       map_of r (nm @ ''_annotation'') = Some (Num 0)) \<longrightarrow>
        validate_row r rules = Inr ''MISSING_REQUIRED_ANNOTATION'') \<and>
     (required_ontologies rules = Some (pre @ nm # post) \<and>
      (\<exists>v. map_of r (nm @ ''_annotation'') = Some v \<and>
           v \<noteq> Terms [] \<and> v \<noteq> Str [] \<and> v \<noteq> Num 0) \<and>
      (\<exists>c. c < thr \<and>
           (map_of r (nm @ ''_confidence'') = Some (Num c) \<or>
            map_of r (nm @ ''_confidence'') = None \<and> c = 0)) \<longrightarrow>
        validate_row r rules = Inr ''LOW_CONFIDENCE'') \<and>
     (required_ontologies rules = Some pre \<or> required_ontologies rules = None \<and> pre = [] \<longrightarrow>
        validate_row r rules = Inr ''PASS'') \<and>
     (validate_row r rules = Inr ''PASS'' \<longrightarrow>
        (\<forall>os. required_ontologies rules = Some os \<longrightarrow>
           (\<forall>p\<in>set os.
              (\<exists>v. map_of r (p @ ''_annotation'') = Some v \<and>
                   v \<noteq> Terms [] \<and> v \<noteq> Str [] \<and> v \<noteq> Num 0) \<and>
              (\<exists>c. thr \<le> c \<and>
                   (map_of r (p @ ''_confidence'') = Some (Num c) \<or>
                    map_of r (p @ ''_confidence'') = None \<and> c = 0)))))"
proof -
  from assms(1) have thr: "rules_threshold rules = thr"
    by (auto simp: rules_threshold_def)
  from assms(2) have pre: "\<forall>p\<in>set pre. \<not> annotation_missing r p \<and>
             (\<exists>c. confidence_cell r p = Num c \<and> thr \<le> c)"
    by (simp add: annotation_present_iff confidence_cell_iff) blast
  note skip = validate_loop_prefix [OF pre]
  have missing: "validate_row r rules = Inr ''MISSING_REQUIRED_ANNOTATION''"
    if "required_ontologies rules = Some (pre @ nm # post)" "annotation_missing r nm"
    using that skip by (simp add: validate_row_def rules_required_def thr)
  have low: "validate_row r rules = Inr ''LOW_CONFIDENCE''"
    if "required_ontologies rules = Some (pre @ nm # post)" "\<not> annotation_missing r nm"
      "confidence_cell r nm = Num c" "c < thr" for c
    using that skip by (simp add: validate_row_def rules_required_def thr)
  have pass: "validate_row r rules = Inr ''PASS''"
    if "required_ontologies rules = Some pre \<or> required_ontologies rules = None \<and> pre = []"
    using that skip [of "[]"] by (auto simp: validate_row_def rules_required_def thr)
  have only: "\<not> annotation_missing r p \<and> (\<exists>c. confidence_cell r p = Num c \<and> thr \<le> c)"
    if "validate_row r rules = Inr ''PASS''" "required_ontologies rules = Some os" "p \<in> set os"
    for os p
    using that validate_loop_pass [of r thr os p]
    by (simp add: validate_row_def rules_required_def thr)
  show ?thesis
  proof (intro conjI impI allI ballI)
    assume "required_ontologies rules = Some (pre @ nm # post) \<and>
      (map_of r (nm @ ''_annotation'') = None \<or>
       map_of r (nm @ ''_annotation'') = Some (Terms []) \<or>
       map_of r (nm @ ''_annotation'') = Some (Str []) \<or>
       map_of r (nm @ ''_annotation'') = Some (Num 0))"
    then show "validate_row r rules = Inr ''MISSING_REQUIRED_ANNOTATION''"
      by (intro missing) (simp_all add: annotation_missing_iff)
  next
    assume a: "required_ontologies rules = Some (pre @ nm # post) \<and>
      (\<exists>v. map_of r (nm @ ''_annotation'') = Some v \<and>
           v \<noteq> Terms [] \<and> v \<noteq> Str [] \<and> v \<noteq> Num 0) \<and>
      (\<exists>c. c < thr \<and>
           (map_of r (nm @ ''_confidence'') = Some (Num c) \<or>
            map_of r (nm @ ''_confidence'') = None \<and> c = 0))"
    then obtain c where "c < thr" "confidence_cell r nm = Num c"
      by (auto simp: confidence_cell_iff)
    moreover from a have "\<not> annotation_missing r nm"
      by (simp only: annotation_present_iff)
    ultimately show "validate_row r rules = Inr ''LOW_CONFIDENCE''"
      using a by (intro low [of c]) simp_all
  next
    assume "required_ontologies rules = Some pre \<or> required_ontologies rules = None \<and> pre = []"
    then show "validate_row r rules = Inr ''PASS''" by (rule pass)
  next
    fix os p
    assume "validate_row r rules = Inr ''PASS''" "required_ontologies rules = Some os" "p \<in> set os"
    from only [OF this] show "\<exists>v. map_of r (p @ ''_annotation'') = Some v \<and>
                   v \<noteq> Terms [] \<and> v \<noteq> Str [] \<and> v \<noteq> Num 0"
      by (simp only: annotation_present_iff)
  next
    fix os p
    assume "validate_row r rules = Inr ''PASS''" "required_ontologies rules = Some os" "p \<in> set os"
    from only [OF this] show "\<exists>c. thr \<le> c \<and>
                   (map_of r (p @ ''_confidence'') = Some (Num c) \<or>
                    map_of r (p @ ''_confidence'') = None \<and> c = 0)"
      by (auto simp: confidence_cell_iff)
  qed
qed

theorem validate_row_first_failure_witness:
  "validate_row [(''sequence'', Str ''ACGU''), (''SO_annotation'', Terms [''SO:1'']),
                 (''SO_confidence'', Num (1 / 4))]
     \<lparr>required_ontologies = Some [''GO'', ''SO''], rule_min_confidence = Some (1 / 2)\<rparr> =
     Inr ''MISSING_REQUIRED_ANNOTATION'' \<and>
   validate_row [(''sequence'', Str ''ACGU''), (''GO_annotation'', Terms []), (''GO_confidence'', Num 0),
                 (''SO_annotation'', Terms [''SO:1'']), (''SO_confidence'', Num 1)]
     \<lparr>required_ontologies = Some [''SO'', ''GO''], rule_min_confidence = None\<rparr> =
     Inr ''MISSING_REQUIRED_ANNOTATION'' \<and>
   validate_row [(''sequence'', Str ''ACGU''), (''GO_annotation'', Terms [''GO:1'']),
                 (''GO_confidence'', Num (5 / 8))]
     \<lparr>required_ontologies = Some [''GO''], rule_min_confidence = Some (1 / 2)\<rparr> = Inr ''PASS'' \<and>
   validate_row [(''sequence'', Str ''ACGU''), (''GO_annotation'', Terms [''GO:1'']),
                 (''GO_confidence'', Num 1), (''SO_annotation'', Terms [''SO:1'']),
                 (''SO_confidence'', Num (7 / 8))]
     \<lparr>required_ontologies = Some [''GO'', ''SO''], rule_min_confidence = Some (15 / 16)\<rparr> =
     Inr ''LOW_CONFIDENCE'' \<and>
   validate_row [(''sequence'', Str ''ACGU''), (''GO_annotation'', Terms [''GO:1'']),
                 (''GO_confidence'', Num float_0_8)]
     \<lparr>required_ontologies = Some [''GO''], rule_min_confidence = None\<rparr> = Inr ''PASS'' \<and>
   validate_row [(''sequence'', Str ''ACGU''), (''GO_annotation'', Terms [''GO:1'']),
                 (''GO_confidence'', Num (7205759403792793 / 9007199254740992))]
     \<lparr>required_ontologies = Some [''GO''], rule_min_confidence = None\<rparr> = Inr ''LOW_CONFIDENCE''"
proof -
  let ?r1 = "[(''sequence'', Str ''ACGU''), (''SO_annotation'', Terms [''SO:1'']),
                 (''SO_confidence'', Num (1 / 4))]"
  let ?u1 = "\<lparr>required_ontologies = Some [''GO'', ''SO''], rule_min_confidence = Some (1 / 2)\<rparr>"
  let ?r2 = "[(''sequence'', Str ''ACGU''), (''GO_annotation'', Terms []), (''GO_confidence'', Num 0),
                 (''SO_annotation'', Terms [''SO:1'']), (''SO_confidence'', Num 1)]"
  let ?u2 = "\<lparr>required_ontologies = Some [''SO'', ''GO''], rule_min_confidence = None\<rparr>"
  let ?r3 = "[(''sequence'', Str ''ACGU''), (''GO_annotation'', Terms [''GO:1'']),
                 (''GO_confidence'', Num (5 / 8))]"
  let ?u3 = "\<lparr>required_ontologies = Some [''GO''], rule_min_confidence = Some (1 / 2)\<rparr>"
  let ?r4 = "[(''sequence'', Str ''ACGU''), (''GO_annotation'', Terms [''GO:1'']),
                 (''GO_confidence'', Num 1), (''SO_annotation'', Terms [''SO:1'']),
                 (''SO_confidence'', Num (7 / 8))]"
  let ?u4 = "\<lparr>required_ontologies = Some [''GO'', ''SO''], rule_min_confidence = Some (15 / 16)\<rparr>"
  let ?r5 = "[(''sequence'', Str ''ACGU''), (''GO_annotation'', Terms [''GO:1'']),
                 (''GO_confidence'', Num float_0_8)]"
  let ?u5 = "\<lparr>required_ontologies = Some [''GO''], rule_min_confidence = None\<rparr>"
  let ?r6 = "[(''sequence'', Str ''ACGU''), (''GO_annotation'', Terms [''GO:1'']),
                 (''GO_confidence'', Num (7205759403792793 / 9007199254740992))]"
  have t1: "rule_min_confidence ?u1 = Some (1 / 2) \<or>
      rule_min_confidence ?u1 = None \<and> (1 / 2 :: real) = float_0_8" by simp
  have t2: "rule_min_confidence ?u2 = Some float_0_8 \<or>
      rule_min_confidence ?u2 = None \<and> float_0_8 = float_0_8" by simp
  have t3: "rule_min_confidence ?u3 = Some (1 / 2) \<or>
      rule_min_confidence ?u3 = None \<and> (1 / 2 :: real) = float_0_8" by simp
  have t4: "rule_min_confidence ?u4 = Some (15 / 16) \<or>
      rule_min_confidence ?u4 = None \<and> (15 / 16 :: real) = float_0_8" by simp
  have t5: "rule_min_confidence ?u5 = Some float_0_8 \<or>
      rule_min_confidence ?u5 = None \<and> float_0_8 = float_0_8" by simp
  have p1: "\<forall>p\<in>set [].
           (\<exists>v. map_of ?r1 (p @ ''_annotation'') = Some v \<and>
                v \<noteq> Terms [] \<and> v \<noteq> Str [] \<and> v \<noteq> Num 0) \<and>
           (\<exists>c. 1 / 2 \<le> c \<and>
                (map_of ?r1 (p @ ''_confidence'') = Some (Num c) \<or>
                 map_of ?r1 (p @ ''_confidence'') = None \<and> c = 0))" by simp
  have p2: "\<forall>p\<in>set [''SO''].
           (\<exists>v. map_of ?r2 (p @ ''_annotation'') = Some v \<and>
                v \<noteq> Terms [] \<and> v \<noteq> Str [] \<and> v \<noteq> Num 0) \<and>
           (\<exists>c. float_0_8 \<le> c \<and>
                (map_of ?r2 (p @ ''_confidence'') = Some (Num c) \<or>
                 map_of ?r2 (p @ ''_confidence'') = None \<and> c = 0))"
    by (auto intro!: exI [of _ "1"])
  have p3: "\<forall>p\<in>set [''GO''].
           (\<exists>v. map_of ?r3 (p @ ''_annotation'') = Some v \<and>
                v \<noteq> Terms [] \<and> v \<noteq> Str [] \<and> v \<noteq> Num 0) \<and>
           (\<exists>c. 1 / 2 \<le> c \<and>
                (map_of ?r3 (p @ ''_confidence'') = Some (Num c) \<or>
                 map_of ?r3 (p @ ''_confidence'') = None \<and> c = 0))"
    by (auto intro!: exI [of _ "5 / 8"])
  have p4: "\<forall>p\<in>set [''GO''].
           (\<exists>v. map_of ?r4 (p @ ''_annotation'') = Some v \<and>
                v \<noteq> Terms [] \<and> v \<noteq> Str [] \<and> v \<noteq> Num 0) \<and>
           (\<exists>c. 15 / 16 \<le> c \<and>
                (map_of ?r4 (p @ ''_confidence'') = Some (Num c) \<or>
                 map_of ?r4 (p @ ''_confidence'') = None \<and> c = 0))"
    by (auto intro!: exI [of _ "1"])
  have p5: "\<forall>p\<in>set [''GO''].
           (\<exists>v. map_of ?r5 (p @ ''_annotation'') = Some v \<and>
                v \<noteq> Terms [] \<and> v \<noteq> Str [] \<and> v \<noteq> Num 0) \<and>
           (\<exists>c. float_0_8 \<le> c \<and>
                (map_of ?r5 (p @ ''_confidence'') = Some (Num c) \<or>
                 map_of ?r5 (p @ ''_confidence'') = None \<and> c = 0))"
    by (auto intro!: exI [of _ "float_0_8"])
  have p6: "\<forall>p\<in>set [].
           (\<exists>v. map_of ?r6 (p @ ''_annotation'') = Some v \<and>
                v \<noteq> Terms [] \<and> v \<noteq> Str [] \<and> v \<noteq> Num 0) \<and>
           (\<exists>c. float_0_8 \<le> c \<and>
                (map_of ?r6 (p @ ''_confidence'') = Some (Num c) \<or>
                 map_of ?r6 (p @ ''_confidence'') = None \<and> c = 0))" by simp
  have h1: "required_ontologies ?u1 = Some ([] @ ''GO'' # [''SO'']) \<and>
      (map_of ?r1 (''GO'' @ ''_annotation'') = None \<or>
       map_of ?r1 (''GO'' @ ''_annotation'') = Some (Terms []) \<or>
       map_of ?r1 (''GO'' @ ''_annotation'') = Some (Str []) \<or>
       map_of ?r1 (''GO'' @ ''_annotation'') = Some (Num 0))" by simp
  have h2: "required_ontologies ?u2 = Some ([''SO''] @ ''GO'' # []) \<and>
      (map_of ?r2 (''GO'' @ ''_annotation'') = None \<or>
       map_of ?r2 (''GO'' @ ''_annotation'') = Some (Terms []) \<or>
       map_of ?r2 (''GO'' @ ''_annotation'') = Some (Str []) \<or>
       map_of ?r2 (''GO'' @ ''_annotation'') = Some (Num 0))" by simp
  have h3: "required_ontologies ?u3 = Some [''GO''] \<or>
      required_ontologies ?u3 = None \<and> [''GO''] = []" by simp
  have h4: "required_ontologies ?u4 = Some ([''GO''] @ ''SO'' # []) \<and>
      (\<exists>v. map_of ?r4 (''SO'' @ ''_annotation'') = Some v \<and>
           v \<noteq> Terms [] \<and> v \<noteq> Str [] \<and> v \<noteq> Num 0) \<and>
      (\<exists>c. c < 15 / 16 \<and>
           (map_of ?r4 (''SO'' @ ''_confidence'') = Some (Num c) \<or>
            map_of ?r4 (''SO'' @ ''_confidence'') = None \<and> c = 0))"
    by (auto intro!: exI [of _ "7 / 8"])
  have h5: "required_ontologies ?u5 = Some [''GO''] \<or>
      required_ontologies ?u5 = None \<and> [''GO''] = []" by simp
  have h6: "required_ontologies ?u5 = Some ([] @ ''GO'' # []) \<and>
      (\<exists>v. map_of ?r6 (''GO'' @ ''_annotation'') = Some v \<and>
           v \<noteq> Terms [] \<and> v \<noteq> Str [] \<and> v \<noteq> Num 0) \<and>
      (\<exists>c. c < float_0_8 \<and>
           (map_of ?r6 (''GO'' @ ''_confidence'') = Some (Num c) \<or>
            map_of ?r6 (''GO'' @ ''_confidence'') = None \<and> c = 0))"
    by (auto intro!: exI [of _ "7205759403792793 / 9007199254740992"])
  note w1 = validate_row_first_failure [OF t1 p1, THEN conjunct1, rule_format, OF h1]
  note w2 = validate_row_first_failure [OF t2 p2, THEN conjunct1, rule_format, OF h2]
  note w3 = validate_row_first_failure [OF t3 p3, THEN conjunct2, THEN conjunct2,
      THEN conjunct1, rule_format, OF h3]
  note w4 = validate_row_first_failure [OF t4 p4, THEN conjunct2, THEN conjunct1,
      rule_format, OF h4]
  note w5 = validate_row_first_failure [OF t5 p5, THEN conjunct2, THEN conjunct2,
      THEN conjunct1, rule_format, OF h5]
  note w6 = validate_row_first_failure [OF t5 p6, THEN conjunct2, THEN conjunct1,
      rule_format, OF h6]
  from w1 w2 w3 w4 w5 w6 show ?thesis by (intro conjI)
qed

section \<open>Properties of the engine\<close>

lemmas engine_defs =
  annotate_sequence_def make_batches_def py_range_def executor_run_def future_result_def
  pd_concat_def annotate_batch_def find_matching_terms_def set_column_def
  calculate_match_confidence_def float64_mean_one

lemma executor_run_invariant:
  assumes "\<forall>i. fin i = None \<or> (i < length tasks \<and> fin i = Some (f (tasks ! i)))"
  shows "\<forall>i. foldl (\<lambda>finished i. if i < length tasks then finished(i \<mapsto> f (tasks ! i)) else finished)
                 fin completed i = None \<or>
             (i < length tasks \<and>
              foldl (\<lambda>finished i. if i < length tasks then finished(i \<mapsto> f (tasks ! i)) else finished)
                 fin completed i = Some (f (tasks ! i)))"
  using assms
proof (induction completed arbitrary: fin)
  case Nil
  then show ?case by simp
next
  case (Cons j completed)
  show ?case
    unfolding foldl_Cons
    by (rule Cons.IH) (use Cons.prems in auto)
qed

lemma future_result_executor_run:
  "future_result f tasks (executor_run f tasks completed) i = f (tasks ! i)"
proof -
  have "\<forall>i. executor_run f tasks completed i = None \<or>
            (i < length tasks \<and> executor_run f tasks completed i = Some (f (tasks ! i)))"
    unfolding executor_run_def by (rule executor_run_invariant) simp
  then have "executor_run f tasks completed i = None \<or>
             executor_run f tasks completed i = Some (f (tasks ! i))"
    by blast
  then show ?thesis
    by (auto simp: future_result_def)
qed

text \<open>What a batch outcome contributes to the merged frame and to the log.\<close>

lemma collect_eq:
  "collect results acc lg =
     (acc @ concat (map (\<lambda>r. case r of Inl e \<Rightarrow> [] | Inr b \<Rightarrow> [b]) results),
      lg @ concat (map (\<lambda>r. case r of Inl e \<Rightarrow> [BatchFailed e] | Inr b \<Rightarrow> []) results))"
  by (induction results acc lg rule: collect.induct) simp_all

lemma map_upt_nth: "map (\<lambda>i. g (xs ! i)) [0..<length xs] = map g xs"
  by (rule nth_equalityI) simp_all

lemma annotate_sequence_eq:
  assumes "make_batches sequence_data (batch_size cfg) = Inr batches" and "0 < max_workers cfg"
  shows "annotate_sequence cfg mean score onts completed sequence_data required =
     (concat (map (\<lambda>b. case annotate_batch mean score (min_confidence cfg) onts b required of
                          Inl e \<Rightarrow> [BatchFailed e] | Inr out \<Rightarrow> []) batches),
      pd_concat (concat (map (\<lambda>b. case annotate_batch mean score (min_confidence cfg) onts b required of
                          Inl e \<Rightarrow> [] | Inr out \<Rightarrow> [out]) batches)))"
proof -
  let ?task = "\<lambda>b. annotate_batch mean score (min_confidence cfg) onts b required"
  have a: "concat (map (\<lambda>i. case ?task (batches ! i) of Inl e \<Rightarrow> [BatchFailed e] | Inr b \<Rightarrow> [])
             [0..<length batches]) =
           concat (map (\<lambda>b. case ?task b of Inl e \<Rightarrow> [BatchFailed e] | Inr b \<Rightarrow> []) batches)"
    by (simp only: map_upt_nth [of "\<lambda>b. case ?task b of Inl e \<Rightarrow> [BatchFailed e] | Inr b \<Rightarrow> []"])
  have b: "concat (map (\<lambda>i. case ?task (batches ! i) of Inl e \<Rightarrow> [] | Inr b \<Rightarrow> [b])
             [0..<length batches]) =
           concat (map (\<lambda>b. case ?task b of Inl e \<Rightarrow> [] | Inr b \<Rightarrow> [b]) batches)"
    by (simp only: map_upt_nth [of "\<lambda>b. case ?task b of Inl e \<Rightarrow> [] | Inr b \<Rightarrow> [b]"])
  show ?thesis
    using assms
    by (simp add: annotate_sequence_def Let_def collect_eq comp_def future_result_executor_run a b)
qed

lemma concat_survivors_Nil:
  "concat (map (\<lambda>b. case f b of Inl e \<Rightarrow> [] | Inr out \<Rightarrow> [out]) bs) = [] \<longleftrightarrow>
     (\<forall>b\<in>set bs. isl (f b))"
  by (induction bs) (auto split: sum.splits)

lemma length_failures:
  "(\<forall>b\<in>set bs. isl (f b)) \<Longrightarrow>
    length (concat (map (\<lambda>b. case f b of Inl e \<Rightarrow> [g e] | Inr out \<Rightarrow> []) bs)) = length bs"
  by (induction bs) (auto split: sum.splits)

lemma make_batches_Nil: "bs \<noteq> 0 \<Longrightarrow> make_batches [] bs = Inr []"
  by (simp add: make_batches_def py_range_def)

text \<open>
  C10. With a usable configuration (at least one worker, a batch size other than zero) an
  empty input gives no batch, and \<open>pd.concat\<close> of the empty list of surviving batches
  raises \<open>ValueError\<close>; the same happens when every submitted batch fails, after one
  failure report per batch. With any configuration an empty input ends in an exception
  and never in an empty frame.
\<close>

theorem no_surviving_batch_raises:
  "(0 < max_workers cfg \<and> batch_size cfg \<noteq> 0 \<longrightarrow>
      annotate_sequence cfg mean score onts completed [] required =
        ([], Inl (ValueError ''No objects to concatenate''))) \<and>
   (0 < max_workers cfg \<and> make_batches sequence_data (batch_size cfg) = Inr batches \<and>
    (\<forall>b\<in>set batches. isl (annotate_batch mean score (min_confidence cfg) onts b required)) \<longrightarrow>
      snd (annotate_sequence cfg mean score onts completed sequence_data required) =
        Inl (ValueError ''No objects to concatenate'') \<and>
      length (fst (annotate_sequence cfg mean score onts completed sequence_data required)) =
        length batches) \<and>
   isl (snd (annotate_sequence cfg mean score onts completed [] required))"
proof -
  have a: "annotate_sequence cfg mean score onts completed [] required =
        ([], Inl (ValueError ''No objects to concatenate''))"
    if "0 < max_workers cfg" "batch_size cfg \<noteq> 0"
    using that by (simp add: annotate_sequence_eq [OF make_batches_Nil] pd_concat_def)
  have b: "snd (annotate_sequence cfg mean score onts completed sequence_data required) =
        Inl (ValueError ''No objects to concatenate'') \<and>
      length (fst (annotate_sequence cfg mean score onts completed sequence_data required)) =
        length batches"
    if "0 < max_workers cfg" "make_batches sequence_data (batch_size cfg) = Inr batches"
      "\<forall>b\<in>set batches. isl (annotate_batch mean score (min_confidence cfg) onts b required)"
  proof -
    let ?task = "\<lambda>b. annotate_batch mean score (min_confidence cfg) onts b required"
    have "concat (map (\<lambda>b. case ?task b of Inl e \<Rightarrow> [] | Inr out \<Rightarrow> [out]) batches) = []"
      using that(3) by (simp only: concat_survivors_Nil)
    moreover have "length (concat (map (\<lambda>b. case ?task b of Inl e \<Rightarrow> [BatchFailed e]
                     | Inr out \<Rightarrow> []) batches)) = length batches"
      using that(3) by (rule length_failures)
    ultimately show ?thesis
      by (simp only: annotate_sequence_eq [OF that(2,1)] pd_concat_def fst_conv snd_conv if_True
          simp_thms)
  qed
  have c: "isl (snd (annotate_sequence cfg mean score onts completed [] required))"
  proof (cases "0 < max_workers cfg \<and> batch_size cfg \<noteq> 0")
    case True
    then show ?thesis using a by simp
  next
    case False
    then show ?thesis
      by (auto simp: annotate_sequence_def make_batches_def py_range_def pd_concat_def
          split: sum.splits)
  qed
  from a b c show ?thesis by blast
qed

theorem no_surviving_batch_raises_witness:
  "annotate_sequence \<lparr>max_workers = 4, batch_size = 1000, cache_expiry = 3600, min_confidence = float_0_8\<rparr>
     float64_mean calculate_match_confidence [(''GO'', [])] [] [] [''GO''] =
     ([], Inl (ValueError ''No objects to concatenate'')) \<and>
   make_batches [[(''name'', Str ''r1'')], [(''name'', Str ''r2'')]] 1 =
     Inr [[[(''name'', Str ''r1'')]], [[(''name'', Str ''r2'')]]] \<and>
   annotate_batch float64_mean calculate_match_confidence (float_0_8) [(''GO'', [])] [[(''name'', Str ''r1'')]] [''GO''] =
     Inl (KeyError ''sequence'') \<and>
   snd (annotate_sequence \<lparr>max_workers = 4, batch_size = 1, cache_expiry = 3600, min_confidence = float_0_8\<rparr>
     float64_mean calculate_match_confidence [(''GO'', [])] [1, 0]
     [[(''name'', Str ''r1'')], [(''name'', Str ''r2'')]] [''GO'']) =
     Inl (ValueError ''No objects to concatenate'')"
proof -
  let ?cfga = "\<lparr>max_workers = 4, batch_size = 1000, cache_expiry = 3600, min_confidence = float_0_8\<rparr>"
  let ?cfg = "\<lparr>max_workers = 4, batch_size = 1, cache_expiry = 3600, min_confidence = float_0_8\<rparr>"
  let ?data = "[[(''name'', Str ''r1'')], [(''name'', Str ''r2'')]]"
  let ?bs = "[[[(''name'', Str ''r1'')]], [[(''name'', Str ''r2'')]]]"
  have a: "0 < max_workers ?cfga \<and> batch_size ?cfga \<noteq> 0" by simp
  have mb: "make_batches ?data 1 = Inr ?bs"
    by (simp add: make_batches_def py_range_def upt_rec)
  have f1: "annotate_batch float64_mean calculate_match_confidence (float_0_8) [(''GO'', [])] [[(''name'', Str ''r1'')]] [''GO''] =
     Inl (KeyError ''sequence'')"
    by (simp add: annotate_batch_def find_matching_terms_def)
  have f2: "annotate_batch float64_mean calculate_match_confidence (float_0_8) [(''GO'', [])] [[(''name'', Str ''r2'')]] [''GO''] =
     Inl (KeyError ''sequence'')"
    by (simp add: annotate_batch_def find_matching_terms_def)
  have b: "0 < max_workers ?cfg \<and> make_batches ?data (batch_size ?cfg) = Inr ?bs \<and>
    (\<forall>b\<in>set ?bs. isl (annotate_batch float64_mean calculate_match_confidence (min_confidence ?cfg) [(''GO'', [])] b [''GO'']))"
    using mb f1 f2 by simp
  show ?thesis
    using mb f1
      no_surviving_batch_raises [of ?cfga float64_mean calculate_match_confidence "[(''GO'', [])]" "[]" "[''GO'']",
        THEN conjunct1, rule_format, OF a]
      no_surviving_batch_raises [of ?cfg float64_mean calculate_match_confidence "[(''GO'', [])]" "[1, 0]" "[''GO'']" ?data ?bs,
        THEN conjunct2, THEN conjunct1, rule_format, OF b]
    by simp
qed

subsection \<open>Batches\<close>

lemma concat_chunks:
  "concat (map (\<lambda>k. take B (drop (k * B) xs)) [0..<n]) = take (n * B) xs"
proof (induction n)
  case 0
  then show ?case by simp
next
  case (Suc n)
  have "take (n * B + B) xs = take (n * B) xs @ take B (drop (n * B) xs)"
    by (rule take_add)
  with Suc show ?case by (simp add: add.commute)
qed

lemma chunk_count:
  fixes N B :: nat
  assumes "0 < B"
  shows "N \<le> ((N + B - 1) div B) * B"
    and "0 < N \<Longrightarrow> ((N + B - 1) div B - 1) * B < N"
proof -
  let ?n = "(N + B - 1) div B"
  have e: "?n * B + (N + B - 1) mod B = N + B - 1"
    by (rule div_mult_mod_eq)
  have m: "(N + B - 1) mod B < B"
    using assms by simp
  from e m assms show "N \<le> ?n * B" by linarith
  assume "0 < N"
  with assms have "0 < ?n"
    by (simp add: div_greater_zero_iff)
  then have "B \<le> ?n * B" by simp
  moreover have "(?n - 1) * B = ?n * B - B"
    by (simp add: diff_mult_distrib)
  ultimately show "(?n - 1) * B < N"
    using e m assms \<open>0 < N\<close> by linarith
qed

lemma make_batches_pos:
  assumes "0 < bs"
  shows "make_batches xs bs =
           Inr (map (\<lambda>k. take (nat bs) (drop (k * nat bs) xs))
                  [0..<(length xs + nat bs - 1) div nat bs])"
  using assms by (simp add: make_batches_def py_range_def comp_def)

lemma make_batches_partition:
  assumes "0 < bs"
  shows "\<exists>batches. make_batches xs bs = Inr batches \<and> concat batches = xs \<and>
           (\<forall>b\<in>set batches. b \<noteq> [] \<and> int (length b) \<le> bs) \<and>
           (\<forall>k. Suc k < length batches \<longrightarrow> int (length (batches ! k)) = bs) \<and>
           (xs \<noteq> [] \<longrightarrow> batches \<noteq> [])"
proof -
  let ?B = "nat bs"
  let ?n = "(length xs + ?B - 1) div ?B"
  let ?batches = "map (\<lambda>k. take ?B (drop (k * ?B) xs)) [0..<?n]"
  from assms have B: "0 < ?B" by simp
  have cover: "length xs \<le> ?n * ?B"
    using chunk_count(1) [OF B] .
  have less: "k * ?B < length xs" if "k < ?n" for k
  proof -
    from that have "0 < length xs"
      using B by (cases "length xs") (auto simp: div_eq_0_iff)
    then have "(?n - 1) * ?B < length xs"
      using chunk_count(2) [OF B] by blast
    moreover from that have "k * ?B \<le> (?n - 1) * ?B"
      by (intro mult_le_mono1) simp
    ultimately show ?thesis by linarith
  qed
  have full: "length (take ?B (drop (k * ?B) xs)) = ?B" if "Suc k < ?n" for k
  proof -
    from that have "Suc k * ?B < length xs" by (rule less)
    then show ?thesis by simp
  qed
  have "make_batches xs bs = Inr ?batches"
    using assms by (rule make_batches_pos)
  moreover have "concat ?batches = xs"
    using cover by (simp add: concat_chunks)
  moreover have "\<forall>b\<in>set ?batches. b \<noteq> [] \<and> int (length b) \<le> bs"
  proof
    fix b assume "b \<in> set ?batches"
    then obtain k where k: "k < ?n" and b: "b = take ?B (drop (k * ?B) xs)"
      by auto
    from less [OF k] B assms show "b \<noteq> [] \<and> int (length b) \<le> bs"
      by (simp add: b)
  qed
  moreover have "\<forall>k. Suc k < length ?batches \<longrightarrow> int (length (?batches ! k)) = bs"
  proof (intro allI impI)
    fix k assume "Suc k < length ?batches"
    then have k: "Suc k < ?n" by simp
    then have "?batches ! k = take ?B (drop (k * ?B) xs)" by simp
    with full [OF k] assms show "int (length (?batches ! k)) = bs" by simp
  qed
  moreover have "xs \<noteq> [] \<longrightarrow> ?batches \<noteq> []"
    using cover by (cases "?n") auto
  ultimately show ?thesis by blast
qed

subsection \<open>A batch is annotated row by row\<close>

lemma rows_loop_map: "rows_loop f rs = Inr xs \<Longrightarrow> map f rs = map Inr xs"
  by (induction rs arbitrary: xs) (auto split: sum.splits)

lemma length_set_column [simp]:
  "length (set_column fr col vals) = min (length fr) (length vals)"
  by (simp add: set_column_def)

lemma set_column_nth:
  "i < length fr \<Longrightarrow> i < length vals \<Longrightarrow>
     set_column fr col vals ! i = dict_set (fr ! i) col (vals ! i)"
  by (simp add: set_column_def)

lemma set_column_single [simp]: "set_column [r] col [v] = [dict_set r col v]"
  by (simp add: set_column_def)

lemma annotate_loop_rowwise:
  assumes "annotate_loop mean score mc onts batch req ann = Inr out" and "length ann = length batch"
  shows "length out = length batch \<and>
         (\<forall>i<length batch.
            annotate_loop mean score mc onts [batch ! i] req [ann ! i] = Inr [out ! i])"
  using assms
proof (induction req arbitrary: ann)
  case Nil
  then show ?case by simp
next
  case (Cons nm req)
  show ?case
  proof (cases "map_of onts nm")
    case None
    with Cons show ?thesis by simp
  next
    case (Some ont)
    let ?f = "\<lambda>r. find_matching_terms mean score mc onts r nm"
    from Cons.prems(1) Some obtain results where
      res: "rows_loop ?f batch = Inr results"
      by (auto split: sum.splits)
    let ?ann = "set_column (set_column ann (nm @ ''_annotation'') (map (\<lambda>res. Terms (fst res)) results))
                  (nm @ ''_confidence'') (map (\<lambda>res. Num (snd res)) results)"
    from res have m: "map ?f batch = map Inr results"
      by (rule rows_loop_map)
    then have len: "length results = length batch"
      by (metis length_map)
    from Cons.prems(1) Some res have out: "annotate_loop mean score mc onts batch req ?ann = Inr out"
      by simp
    have lann: "length ?ann = length batch"
      using len Cons.prems(2) by simp
    note ih = Cons.IH [OF out lann]
    have "annotate_loop mean score mc onts [batch ! i] (nm # req) [ann ! i] = Inr [out ! i]"
      if i: "i < length batch" for i
    proof -
      from m i len have fi: "?f (batch ! i) = Inr (results ! i)"
        by (metis nth_map)
      have "?ann ! i = dict_set (dict_set (ann ! i) (nm @ ''_annotation'') (Terms (fst (results ! i))))
              (nm @ ''_confidence'') (Num (snd (results ! i)))"
        using i len Cons.prems(2) by (simp add: set_column_nth)
      moreover from ih i have "annotate_loop mean score mc onts [batch ! i] req [?ann ! i] = Inr [out ! i]"
        by blast
      ultimately show ?thesis
        using Some fi by simp
    qed
    with ih show ?thesis by blast
  qed
qed

lemma annotate_batch_rowwise:
  assumes "annotate_batch mean score mc onts batch required = Inr out"
  shows "map (\<lambda>r. annotate_batch mean score mc onts [r] required) batch = map (\<lambda>r. Inr [r]) out"
proof (rule nth_equalityI)
  from annotate_loop_rowwise [OF assms [unfolded annotate_batch_def] refl]
  have len: "length out = length batch"
    and row: "\<And>i. i < length batch \<Longrightarrow>
      annotate_loop mean score mc onts [batch ! i] required [batch ! i] = Inr [out ! i]"
    by blast+
  from len show "length (map (\<lambda>r. annotate_batch mean score mc onts [r] required) batch) =
      length (map (\<lambda>r. Inr [r]) out)" by simp
  fix i assume "i < length (map (\<lambda>r. annotate_batch mean score mc onts [r] required) batch)"
  then have i: "i < length batch" by simp
  with len row [OF i] show "map (\<lambda>r. annotate_batch mean score mc onts [r] required) batch ! i =
      map (\<lambda>r. Inr [r]) out ! i"
    by (simp add: annotate_batch_def)
qed

lemma survivors_concat:
  "concat (concat (map (\<lambda>b. case f b of Inl e \<Rightarrow> [] | Inr out \<Rightarrow> [out]) bs)) =
   concat (map (\<lambda>b. case f b of Inl e \<Rightarrow> [] | Inr out \<Rightarrow> out) bs)"
  by (induction bs) (auto split: sum.splits)

lemma survivors_rowwise:
  assumes "\<forall>b\<in>set bs. \<not> isl (annotate_batch mean score mc onts b required)"
  shows "map (\<lambda>r. annotate_batch mean score mc onts [r] required) (concat bs) =
         map (\<lambda>r. Inr [r])
           (concat (map (\<lambda>b. case annotate_batch mean score mc onts b required of
                               Inl e \<Rightarrow> [] | Inr out \<Rightarrow> out) bs))"
  using assms
proof (induction bs)
  case Nil
  then show ?case by simp
next
  case (Cons b bs)
  from Cons.prems obtain out where out: "annotate_batch mean score mc onts b required = Inr out"
    by (cases "annotate_batch mean score mc onts b required") auto
  from Cons have "map (\<lambda>r. annotate_batch mean score mc onts [r] required) (concat bs) =
         map (\<lambda>r. Inr [r])
           (concat (map (\<lambda>b. case annotate_batch mean score mc onts b required of
                               Inl e \<Rightarrow> [] | Inr out \<Rightarrow> out) bs))"
    by simp
  with annotate_batch_rowwise [OF out] out show ?case by simp
qed

lemma no_failures:
  "\<forall>b\<in>set bs. \<not> isl (f b) \<Longrightarrow>
     concat (map (\<lambda>b. case f b of Inl e \<Rightarrow> [g e] | Inr out \<Rightarrow> []) bs) = []"
  by (induction bs) (auto split: sum.splits)

text \<open>
  C2, as amended. For every non-empty input and every batch size of at least one,
  \<open>annotate_sequence\<close> cuts the records into contiguous, non-empty batches of at most
  \<open>batch_size\<close> records, all but the last of exactly that size. If no batch fails, then
  for every worker count of at least one and every completion order of the tasks the
  call returns the same frame without a failure report, and that frame holds, record by
  record and in input order, the annotation of each input record.
\<close>

theorem batches_preserve_order:
  assumes "0 < batch_size cfg" and "sequence_data \<noteq> []"
  shows "\<exists>batches.
    make_batches sequence_data (batch_size cfg) = Inr batches \<and>
    concat batches = sequence_data \<and>
    (\<forall>b\<in>set batches. b \<noteq> [] \<and> int (length b) \<le> batch_size cfg) \<and>
    (\<forall>k. Suc k < length batches \<longrightarrow> int (length (batches ! k)) = batch_size cfg) \<and>
    ((\<forall>b\<in>set batches. \<not> isl (annotate_batch mean score (min_confidence cfg) onts b required)) \<longrightarrow>
       (\<exists>out.
          (\<forall>w completed. 0 < w \<longrightarrow>
             annotate_sequence (cfg\<lparr>max_workers := w\<rparr>) mean score onts completed sequence_data required =
               ([], Inr out)) \<and>
          map (\<lambda>r. annotate_batch mean score (min_confidence cfg) onts [r] required) sequence_data =
            map (\<lambda>r. Inr [r]) out))"
proof -
  from make_batches_partition [OF assms(1), of sequence_data] assms(2)
  obtain batches where
    mb: "make_batches sequence_data (batch_size cfg) = Inr batches" and
    cc: "concat batches = sequence_data" and
    sz: "\<forall>b\<in>set batches. b \<noteq> [] \<and> int (length b) \<le> batch_size cfg" and
    fl: "\<forall>k. Suc k < length batches \<longrightarrow> int (length (batches ! k)) = batch_size cfg" and
    ne: "batches \<noteq> []"
    by blast
  let ?task = "\<lambda>b. annotate_batch mean score (min_confidence cfg) onts b required"
  let ?out = "concat (map (\<lambda>b. case ?task b of Inl e \<Rightarrow> [] | Inr out \<Rightarrow> out) batches)"
  have "(\<forall>w completed. 0 < w \<longrightarrow>
             annotate_sequence (cfg\<lparr>max_workers := w\<rparr>) mean score onts completed sequence_data required =
               ([], Inr ?out)) \<and>
          map (\<lambda>r. annotate_batch mean score (min_confidence cfg) onts [r] required) sequence_data =
            map (\<lambda>r. Inr [r]) ?out"
    if ok: "\<forall>b\<in>set batches. \<not> isl (?task b)"
  proof (intro conjI allI impI)
    fix w :: int and completed
    assume w: "0 < w"
    from ok ne have "concat (map (\<lambda>b. case ?task b of Inl e \<Rightarrow> [] | Inr out \<Rightarrow> [out]) batches) \<noteq> []"
      by (cases batches) (auto split: sum.splits)
    then have "pd_concat (concat (map (\<lambda>b. case ?task b of Inl e \<Rightarrow> [] | Inr out \<Rightarrow> [out]) batches)) =
        Inr ?out"
      by (simp only: pd_concat_def survivors_concat if_False)
    moreover have "concat (map (\<lambda>b. case ?task b of Inl e \<Rightarrow> [BatchFailed e] | Inr out \<Rightarrow> []) batches) = []"
      using ok by (rule no_failures)
    moreover have "annotate_sequence (cfg\<lparr>max_workers := w\<rparr>) mean score onts completed sequence_data required =
     (concat (map (\<lambda>b. case ?task b of Inl e \<Rightarrow> [BatchFailed e] | Inr out \<Rightarrow> []) batches),
      pd_concat (concat (map (\<lambda>b. case ?task b of Inl e \<Rightarrow> [] | Inr out \<Rightarrow> [out]) batches)))"
      using annotate_sequence_eq [of sequence_data "cfg\<lparr>max_workers := w\<rparr>" batches mean score
          onts completed required] mb w
      by simp
    ultimately show "annotate_sequence (cfg\<lparr>max_workers := w\<rparr>) mean score onts completed sequence_data
        required = ([], Inr ?out)"
      by (simp only:)
  next
    show "map (\<lambda>r. annotate_batch mean score (min_confidence cfg) onts [r] required) sequence_data =
            map (\<lambda>r. Inr [r]) ?out"
      using survivors_rowwise [OF ok] by (simp only: cc)
  qed
  with mb cc sz fl show ?thesis by blast
qed

theorem batches_preserve_order_witness:
  "annotate_sequence \<lparr>max_workers = 1, batch_size = 2, cache_expiry = 3600, min_confidence = float_0_8\<rparr>
     float64_mean calculate_match_confidence [(''GO'', [(''GO:1'', new_term)])] []
     [[(''sequence'', Str ''ACGU'')], [(''sequence'', Str ''CCGG'')], [(''sequence'', Str ''GGCC'')]]
     [''GO''] =
   annotate_sequence \<lparr>max_workers = 4, batch_size = 2, cache_expiry = 3600, min_confidence = float_0_8\<rparr>
     float64_mean calculate_match_confidence [(''GO'', [(''GO:1'', new_term)])] [1, 0]
     [[(''sequence'', Str ''ACGU'')], [(''sequence'', Str ''CCGG'')], [(''sequence'', Str ''GGCC'')]]
     [''GO''] \<and>
   annotate_sequence \<lparr>max_workers = 4, batch_size = 2, cache_expiry = 3600, min_confidence = float_0_8\<rparr>
     float64_mean calculate_match_confidence [(''GO'', [(''GO:1'', new_term)])] [1, 0]
     [[(''sequence'', Str ''ACGU'')], [(''sequence'', Str ''CCGG'')], [(''sequence'', Str ''GGCC'')]]
     [''GO''] =
     ([], Inr [[(''sequence'', Str ''ACGU''), (''GO_annotation'', Terms []), (''GO_confidence'', Num 0)],
               [(''sequence'', Str ''CCGG''), (''GO_annotation'', Terms []), (''GO_confidence'', Num 0)],
               [(''sequence'', Str ''GGCC''), (''GO_annotation'', Terms []), (''GO_confidence'', Num 0)]])"
proof -
  let ?cfg = "\<lparr>max_workers = 4, batch_size = 2, cache_expiry = 3600, min_confidence = float_0_8\<rparr>"
  let ?onts = "[(''GO'', [(''GO:1'', new_term)])]"
  let ?data = "[[(''sequence'', Str ''ACGU'')], [(''sequence'', Str ''CCGG'')], [(''sequence'', Str ''GGCC'')]]"
  let ?bs = "[[[(''sequence'', Str ''ACGU'')], [(''sequence'', Str ''CCGG'')]], [[(''sequence'', Str ''GGCC'')]]]"
  have h1: "0 < batch_size ?cfg" by simp
  have h2: "?data \<noteq> []" by simp
  have mb: "make_batches ?data (batch_size ?cfg) = Inr ?bs"
    by (simp add: make_batches_def py_range_def upt_rec)
  have t1: "annotate_batch float64_mean calculate_match_confidence (min_confidence ?cfg) ?onts
      [[(''sequence'', Str ''ACGU'')], [(''sequence'', Str ''CCGG'')]] [''GO''] =
      Inr [[(''sequence'', Str ''ACGU''), (''GO_annotation'', Terms []), (''GO_confidence'', Num 0)],
           [(''sequence'', Str ''CCGG''), (''GO_annotation'', Terms []), (''GO_confidence'', Num 0)]]"
    by (simp add: engine_defs)
  have t2: "annotate_batch float64_mean calculate_match_confidence (min_confidence ?cfg) ?onts
      [[(''sequence'', Str ''GGCC'')]] [''GO''] =
      Inr [[(''sequence'', Str ''GGCC''), (''GO_annotation'', Terms []), (''GO_confidence'', Num 0)]]"
    by (simp add: engine_defs)
  have r: "map (\<lambda>r. annotate_batch float64_mean calculate_match_confidence (min_confidence ?cfg) ?onts [r] [''GO'']) ?data =
      [Inr [[(''sequence'', Str ''ACGU''), (''GO_annotation'', Terms []), (''GO_confidence'', Num 0)]],
       Inr [[(''sequence'', Str ''CCGG''), (''GO_annotation'', Terms []), (''GO_confidence'', Num 0)]],
       Inr [[(''sequence'', Str ''GGCC''), (''GO_annotation'', Terms []), (''GO_confidence'', Num 0)]]]"
    by (simp add: engine_defs)
  from batches_preserve_order [OF h1 h2, of float64_mean calculate_match_confidence ?onts "[''GO'']"]
  obtain batches where
    b: "make_batches ?data (batch_size ?cfg) = Inr batches" and
    imp: "(\<forall>b\<in>set batches. \<not> isl (annotate_batch float64_mean calculate_match_confidence (min_confidence ?cfg) ?onts b [''GO''])) \<longrightarrow>
       (\<exists>out.
          (\<forall>w completed. 0 < w \<longrightarrow>
             annotate_sequence (?cfg\<lparr>max_workers := w\<rparr>) float64_mean calculate_match_confidence ?onts completed ?data [''GO''] =
               ([], Inr out)) \<and>
          map (\<lambda>r. annotate_batch float64_mean calculate_match_confidence (min_confidence ?cfg) ?onts [r] [''GO'']) ?data =
            map (\<lambda>r. Inr [r]) out)"
    by blast
  from b mb have bs: "batches = ?bs" by simp
  have "\<forall>b\<in>set batches. \<not> isl (annotate_batch float64_mean calculate_match_confidence (min_confidence ?cfg) ?onts b [''GO''])"
    using t1 t2 by (simp add: bs)
  with imp obtain out where
    run: "\<And>w completed. 0 < w \<Longrightarrow>
             annotate_sequence (?cfg\<lparr>max_workers := w\<rparr>) float64_mean calculate_match_confidence ?onts completed ?data [''GO''] =
               ([], Inr out)" and
    rows: "map (\<lambda>r. annotate_batch float64_mean calculate_match_confidence (min_confidence ?cfg) ?onts [r] [''GO'']) ?data =
            map (\<lambda>r. Inr [r]) out"
    by blast
  from rows r have "map (\<lambda>r. Inr [r] :: error + frame) out =
      [Inr [[(''sequence'', Str ''ACGU''), (''GO_annotation'', Terms []), (''GO_confidence'', Num 0)]],
       Inr [[(''sequence'', Str ''CCGG''), (''GO_annotation'', Terms []), (''GO_confidence'', Num 0)]],
       Inr [[(''sequence'', Str ''GGCC''), (''GO_annotation'', Terms []), (''GO_confidence'', Num 0)]]]"
    by simp
  then have out: "out = [[(''sequence'', Str ''ACGU''), (''GO_annotation'', Terms []), (''GO_confidence'', Num 0)],
               [(''sequence'', Str ''CCGG''), (''GO_annotation'', Terms []), (''GO_confidence'', Num 0)],
               [(''sequence'', Str ''GGCC''), (''GO_annotation'', Terms []), (''GO_confidence'', Num 0)]]"
    by (auto simp: map_eq_Cons_conv)
  from run [of 1 "[]"] run [of 4 "[1, 0]"] show ?thesis
    by (simp add: out)
qed

text \<open>
  An empty input ends in an exception, and so does a batch size of zero.
\<close>

theorem batches_preserve_order_counterexample:
  "annotate_sequence \<lparr>max_workers = 4, batch_size = 1000, cache_expiry = 3600, min_confidence = float_0_8\<rparr>
     float64_mean calculate_match_confidence [(''GO'', [])] [] [] [''GO''] =
     ([], Inl (ValueError ''No objects to concatenate'')) \<and>
   annotate_sequence \<lparr>max_workers = 4, batch_size = 0, cache_expiry = 3600, min_confidence = float_0_8\<rparr>
     float64_mean calculate_match_confidence [(''GO'', [])] [] [[(''sequence'', Str ''ACGU'')]] [''GO''] =
     ([], Inl (ValueError ''range() arg 3 must not be zero''))"
  by (simp add: engine_defs)

text \<open>
  C8, as amended. When some batches raise and at least one batch succeeds,
  \<open>annotate_sequence\<close> returns normally: every failing batch contributes one failure
  report and no record, every other batch contributes its annotated records, and reports
  and records are in submission order.
\<close>

theorem failed_batch_is_dropped:
  assumes "make_batches sequence_data (batch_size cfg) = Inr batches" and "0 < max_workers cfg"
    and "\<exists>b\<in>set batches. \<not> isl (annotate_batch mean score (min_confidence cfg) onts b required)"
  shows "annotate_sequence cfg mean score onts completed sequence_data required =
    (concat (map (\<lambda>b. case annotate_batch mean score (min_confidence cfg) onts b required of
                         Inl e \<Rightarrow> [BatchFailed e] | Inr out \<Rightarrow> []) batches),
     Inr (concat (map (\<lambda>b. case annotate_batch mean score (min_confidence cfg) onts b required of
                         Inl e \<Rightarrow> [] | Inr out \<Rightarrow> out) batches)))"
proof -
  let ?task = "\<lambda>b. annotate_batch mean score (min_confidence cfg) onts b required"
  from assms(3) have "\<not> (\<forall>b\<in>set batches. isl (?task b))" by blast
  then have "concat (map (\<lambda>b. case ?task b of Inl e \<Rightarrow> [] | Inr out \<Rightarrow> [out]) batches) \<noteq> []"
    by (simp only: concat_survivors_Nil not_False_eq_True)
  then have "pd_concat (concat (map (\<lambda>b. case ?task b of Inl e \<Rightarrow> [] | Inr out \<Rightarrow> [out]) batches)) =
      Inr (concat (map (\<lambda>b. case ?task b of Inl e \<Rightarrow> [] | Inr out \<Rightarrow> out) batches))"
    by (simp only: pd_concat_def survivors_concat if_False)
  then show ?thesis
    by (simp only: annotate_sequence_eq [OF assms(1,2)])
qed

theorem failed_batch_is_dropped_witness:
  "annotate_sequence \<lparr>max_workers = 4, batch_size = 1, cache_expiry = 3600, min_confidence = float_0_8\<rparr>
     float64_mean (\<lambda>sq t. if sq = Str ''N'' then Inl (External ''cannot score'') else Inr 1)
     [(''GO'', [(''GO:1'', new_term)])] [2, 0]
     [[(''sequence'', Str ''ACGU'')], [(''sequence'', Str ''N'')], [(''sequence'', Str ''GGCC'')]]
     [''GO''] =
     ([BatchFailed (External ''cannot score'')],
      Inr [[(''sequence'', Str ''ACGU''), (''GO_annotation'', Terms [''GO:1'']), (''GO_confidence'', Num 1)],
           [(''sequence'', Str ''GGCC''), (''GO_annotation'', Terms [''GO:1'']), (''GO_confidence'', Num 1)]])"
proof -
  let ?cfg = "\<lparr>max_workers = 4, batch_size = 1, cache_expiry = 3600, min_confidence = float_0_8\<rparr>"
  let ?score = "\<lambda>sq t. if sq = Str ''N'' then Inl (External ''cannot score'') else Inr (1 :: real)"
  let ?onts = "[(''GO'', [(''GO:1'', new_term)])]"
  let ?data = "[[(''sequence'', Str ''ACGU'')], [(''sequence'', Str ''N'')], [(''sequence'', Str ''GGCC'')]]"
  let ?bs = "[[[(''sequence'', Str ''ACGU'')]], [[(''sequence'', Str ''N'')]], [[(''sequence'', Str ''GGCC'')]]]"
  have mb: "make_batches ?data (batch_size ?cfg) = Inr ?bs"
    by (simp add: make_batches_def py_range_def upt_rec)
  have w: "0 < max_workers ?cfg" by simp
  have t1: "annotate_batch float64_mean ?score (min_confidence ?cfg) ?onts [[(''sequence'', Str ''ACGU'')]] [''GO''] =
      Inr [[(''sequence'', Str ''ACGU''), (''GO_annotation'', Terms [''GO:1'']), (''GO_confidence'', Num 1)]]"
    by (simp add: engine_defs)
  have t2: "annotate_batch float64_mean ?score (min_confidence ?cfg) ?onts [[(''sequence'', Str ''N'')]] [''GO''] =
      Inl (External ''cannot score'')"
    by (simp add: engine_defs)
  have t3: "annotate_batch float64_mean ?score (min_confidence ?cfg) ?onts [[(''sequence'', Str ''GGCC'')]] [''GO''] =
      Inr [[(''sequence'', Str ''GGCC''), (''GO_annotation'', Terms [''GO:1'']), (''GO_confidence'', Num 1)]]"
    by (simp add: engine_defs)
  have ex: "\<exists>b\<in>set ?bs. \<not> isl (annotate_batch float64_mean ?score (min_confidence ?cfg) ?onts b [''GO''])"
    using t1 by simp
  show ?thesis
    using failed_batch_is_dropped [OF mb w ex, of "[2, 0]"] t1 t2 t3
    by simp
qed

text \<open>
  A single batch that fails, once through a missing \<open>sequence\<close> column with the class's
  own scoring and once through a scoring method that raises: the call ends in
  \<open>ValueError\<close> after the failure report.
\<close>

theorem failed_batch_is_dropped_counterexample:
  "annotate_sequence \<lparr>max_workers = 4, batch_size = 1000, cache_expiry = 3600, min_confidence = float_0_8\<rparr>
     float64_mean calculate_match_confidence [(''GO'', [])] [] [[(''name'', Str ''r1'')]] [''GO''] =
     ([BatchFailed (KeyError ''sequence'')], Inl (ValueError ''No objects to concatenate'')) \<and>
   annotate_sequence \<lparr>max_workers = 4, batch_size = 1000, cache_expiry = 3600, min_confidence = float_0_8\<rparr>
     float64_mean (\<lambda>sq t. Inl (External ''cannot score'')) [(''GO'', [(''GO:1'', new_term)])] []
     [[(''sequence'', Str ''ACGU'')]] [''GO''] =
     ([BatchFailed (External ''cannot score'')], Inl (ValueError ''No objects to concatenate''))"
  by (simp add: engine_defs upt_rec)

subsection \<open>Columns that annotation and validation leave alone\<close>

lemma annotate_row_frame:
  assumes "annotate_loop mean score mc onts [r] req [a] = Inr [out]"
    and "\<forall>nm\<in>set req. c \<noteq> nm @ ''_annotation'' \<and> c \<noteq> nm @ ''_confidence''"
  shows "map_of out c = map_of a c"
  using assms
proof (induction req arbitrary: a)
  case Nil
  then show ?case by simp
next
  case (Cons nm req)
  show ?case
  proof (cases "map_of onts nm")
    case None
    with Cons show ?thesis by simp
  next
    case (Some ont)
    from Cons.prems(1) Some obtain x where
      x: "find_matching_terms mean score mc onts r nm = Inr x"
      by (auto split: sum.splits)
    let ?a = "dict_set (dict_set a (nm @ ''_annotation'') (Terms (fst x)))
                (nm @ ''_confidence'') (Num (snd x))"
    from Cons.prems(1) Some x have "annotate_loop mean score mc onts [r] req [?a] = Inr [out]"
      by simp
    moreover from Cons.prems(2) have
      "\<forall>nm\<in>set req. c \<noteq> nm @ ''_annotation'' \<and> c \<noteq> nm @ ''_confidence''"
      by simp
    ultimately have "map_of out c = map_of ?a c"
      by (rule Cons.IH)
    with Cons.prems(2) show ?thesis
      by (simp add: map_of_dict_set)
  qed
qed

lemma validate_annotations_frame:
  assumes "validate_annotations fr rules = Inr v"
  shows "length v = length fr \<and>
         (\<forall>i<length fr. \<forall>c. c \<noteq> ''validation_status'' \<longrightarrow> map_of (v ! i) c = map_of (fr ! i) c)"
proof -
  from assms obtain verdicts where
    vs: "rows_loop (\<lambda>r. validate_row r rules) fr = Inr verdicts" and
    v: "v = set_column fr ''validation_status'' (map Str verdicts)"
    by (auto simp: validate_annotations_def split: sum.splits)
  from rows_loop_map [OF vs] have len: "length verdicts = length fr"
    by (metis length_map)
  then show ?thesis
    by (simp add: v set_column_nth map_of_dict_set)
qed

lemma sequence_not_generated:
  "''sequence'' \<noteq> nm @ ''_annotation''" "''sequence'' \<noteq> nm @ ''_confidence''"
  "''sequence'' \<noteq> ''validation_status''"
proof -
  show "''sequence'' \<noteq> nm @ ''_annotation''"
  proof
    assume "''sequence'' = nm @ ''_annotation''"
    then have "length ''sequence'' = length (nm @ ''_annotation'')" by (rule arg_cong)
    then show False by simp
  qed
  show "''sequence'' \<noteq> nm @ ''_confidence''"
  proof
    assume "''sequence'' = nm @ ''_confidence''"
    then have "length ''sequence'' = length (nm @ ''_confidence'')" by (rule arg_cong)
    then show False by simp
  qed
  show "''sequence'' \<noteq> ''validation_status''" by simp
qed

text \<open>
  C9. When a batch is annotated and the result validated, the frame keeps its rows, and
  in every row each column other than \<open>validation_status\<close> and the \<open>_annotation\<close> and
  \<open>_confidence\<close> columns of the requested ontologies has the value it had in the input,
  or is absent as it was there. The column \<open>sequence\<close> is always among the columns that
  are kept.
\<close>

theorem caller_columns_preserved:
  assumes "annotate_batch mean score mc onts batch required = Inr out"
    and "validate_annotations out rules = Inr v"
  shows "length v = length batch \<and>
    (\<forall>i<length batch.
       map_of (v ! i) ''sequence'' = map_of (batch ! i) ''sequence'' \<and>
       (\<forall>c. c \<noteq> ''validation_status'' \<and>
            (\<forall>nm\<in>set required. c \<noteq> nm @ ''_annotation'' \<and> c \<noteq> nm @ ''_confidence'') \<longrightarrow>
            map_of (v ! i) c = map_of (batch ! i) c))"
proof -
  from annotate_loop_rowwise [OF assms(1) [unfolded annotate_batch_def] refl]
  have len: "length out = length batch"
    and row: "\<And>i. i < length batch \<Longrightarrow>
      annotate_loop mean score mc onts [batch ! i] required [batch ! i] = Inr [out ! i]"
    by blast+
  from validate_annotations_frame [OF assms(2)]
  have lv: "length v = length out"
    and val: "\<And>i c. i < length out \<Longrightarrow> c \<noteq> ''validation_status'' \<Longrightarrow>
      map_of (v ! i) c = map_of (out ! i) c"
    by blast+
  have keep: "map_of (v ! i) c = map_of (batch ! i) c"
    if "i < length batch" "c \<noteq> ''validation_status''"
      "\<forall>nm\<in>set required. c \<noteq> nm @ ''_annotation'' \<and> c \<noteq> nm @ ''_confidence''"
    for i c
  proof -
    from that(1) len have "map_of (v ! i) c = map_of (out ! i) c"
      using val that(2) by simp
    also have "\<dots> = map_of (batch ! i) c"
      using row [OF that(1)] that(3) by (rule annotate_row_frame)
    finally show ?thesis .
  qed
  have "map_of (v ! i) ''sequence'' = map_of (batch ! i) ''sequence''" if "i < length batch" for i
    using that by (intro keep) (simp_all add: sequence_not_generated)
  with keep lv len show ?thesis by simp
qed

theorem caller_columns_preserved_witness:
  "annotate_batch float64_mean calculate_match_confidence (float_0_8) [(''GO'', [(''GO:1'', new_term)])]
     [[(''sample'', Str ''s1''), (''sequence'', Str ''ACGU'')]] [''GO'', ''SO''] =
     Inr [[(''sample'', Str ''s1''), (''sequence'', Str ''ACGU''), (''GO_annotation'', Terms []),
           (''GO_confidence'', Num 0)]] \<and>
   validate_annotations
     [[(''sample'', Str ''s1''), (''sequence'', Str ''ACGU''), (''GO_annotation'', Terms []),
       (''GO_confidence'', Num 0)]]
     \<lparr>required_ontologies = Some [''GO'', ''SO''], rule_min_confidence = None\<rparr> =
     Inr [[(''sample'', Str ''s1''), (''sequence'', Str ''ACGU''), (''GO_annotation'', Terms []),
           (''GO_confidence'', Num 0), (''validation_status'', Str ''MISSING_REQUIRED_ANNOTATION'')]] \<and>
   map_of ([[(''sample'', Str ''s1''), (''sequence'', Str ''ACGU''), (''GO_annotation'', Terms []),
           (''GO_confidence'', Num 0), (''validation_status'', Str ''MISSING_REQUIRED_ANNOTATION'')]] ! 0)
     ''sample'' =
   map_of ([[(''sample'', Str ''s1''), (''sequence'', Str ''ACGU'')]] ! 0) ''sample''"
proof -
  let ?batch = "[[(''sample'', Str ''s1''), (''sequence'', Str ''ACGU'')]]"
  let ?out = "[[(''sample'', Str ''s1''), (''sequence'', Str ''ACGU''), (''GO_annotation'', Terms []),
           (''GO_confidence'', Num 0)]]"
  let ?v = "[[(''sample'', Str ''s1''), (''sequence'', Str ''ACGU''), (''GO_annotation'', Terms []),
           (''GO_confidence'', Num 0), (''validation_status'', Str ''MISSING_REQUIRED_ANNOTATION'')]]"
  let ?rules = "\<lparr>required_ontologies = Some [''GO'', ''SO''], rule_min_confidence = None\<rparr>"
  have a: "annotate_batch float64_mean calculate_match_confidence (float_0_8) [(''GO'', [(''GO:1'', new_term)])]
     ?batch [''GO'', ''SO''] = Inr ?out"
    by (simp add: engine_defs)
  have b: "validate_annotations ?out ?rules = Inr ?v"
    by (simp add: validate_annotations_def validate_row_def rules_required_def
        rules_threshold_def annotation_missing_def set_column_def)
  have c: "(0::nat) < length ?batch" by simp
  have d: "''sample'' \<noteq> ''validation_status'' \<and>
     (\<forall>nm\<in>set [''GO'', ''SO'']. ''sample'' \<noteq> nm @ ''_annotation'' \<and> ''sample'' \<noteq> nm @ ''_confidence'')"
    by simp
  from caller_columns_preserved [OF a b, THEN conjunct2, rule_format, OF c, THEN conjunct2,
      rule_format, OF d] a b
  show ?thesis by simp
qed

section \<open>Properties of the loader\<close>

text \<open>
  C3, as amended. With the loader's attributes assigned and a cache client configured: a
  failure of the cache write leaves the graph parsed from the source file registered,
  exactly as a load without a cache registers it, and the load is logged as failed; a
  failure of the cache read ends the load of that ontology before the source file is
  parsed, so nothing is registered for it and the failure is logged. In both cases the
  loader goes on with the next ontology.
\<close>

theorem cache_failure_in_load:
  assumes "self_redis_client self = Some (Some r)"
  shows
    "(cache_lookup env (Some r) nm = Inr None \<and> parse_obo_file (fs env) path = Inr g \<and>
      cache_store env (self_config self) (Some r) nm g = Inl e \<longrightarrow>
        self_ontologies (load_one env self (nm, path)) = dict_set (self_ontologies self) nm g \<and>
        self_ontologies (load_one env self (nm, path)) =
          self_ontologies (load_one env (self\<lparr>self_redis_client := Some None\<rparr>) (nm, path)) \<and>
        self_logger (load_one env self (nm, path)) = self_logger self @ [LoadFailed nm e]) \<and>
     (cache_lookup env (Some r) nm = Inl e \<longrightarrow>
        load_one env self (nm, path) = self\<lparr>self_logger := self_logger self @ [LoadFailed nm e]\<rparr>) \<and>
     load_ontologies env self ((nm, path) # rest) =
       load_ontologies env (load_one env self (nm, path)) rest"
  using assms
  by (simp add: load_one_def load_body_def load_ontologies_def cache_lookup_def cache_store_def)

text \<open>
  A cache whose \<open>get\<close> raises: nothing is registered, although the same load without
  a cache registers the parsed graph.
\<close>

theorem cache_failure_in_load_counterexample:
  "self_ontologies
     (load_one \<lparr>fs = (\<lambda>p. Inr [''[Term]'', ''id: GO:1'']), json_loads = (\<lambda>b. Inr []),
                json_dumps = (\<lambda>g. Inr ''{}'')\<rparr>
        \<lparr>self_ontologies = [], self_logger = [],
          self_redis_client = Some (Some \<lparr>redis_get = (\<lambda>k. Inl (External ''connection refused'')),
                                           redis_setex = (\<lambda>k t b. Inr ())\<rparr>),
          self_config = Some \<lparr>max_workers = 4, batch_size = 1000, cache_expiry = 3600,
                               min_confidence = float_0_8\<rparr>\<rparr>
        (''GO'', ''go.obo'')) = [] \<and>
   self_ontologies
     (load_one \<lparr>fs = (\<lambda>p. Inr [''[Term]'', ''id: GO:1'']), json_loads = (\<lambda>b. Inr []),
                json_dumps = (\<lambda>g. Inr ''{}'')\<rparr>
        \<lparr>self_ontologies = [], self_logger = [], self_redis_client = Some None,
          self_config = Some \<lparr>max_workers = 4, batch_size = 1000, cache_expiry = 3600,
                               min_confidence = float_0_8\<rparr>\<rparr>
        (''GO'', ''go.obo'')) = [(''GO'', [(''GO:1'', new_term\<lparr>t_id := Some ''GO:1''\<rparr>)])]"
  by (simp add: load_one_def load_body_def cache_lookup_def cache_store_def parse_obo_file_def
      parse_obo_lines_def parse_line_def finish_def store_term_def set_field_def new_term_def
      string_ops)

theorem cache_failure_in_load_witness:
  "self_ontologies
     (load_one \<lparr>fs = (\<lambda>p. Inr [''[Term]'', ''id: GO:1'']), json_loads = (\<lambda>b. Inr []),
                json_dumps = (\<lambda>g. Inr ''{}'')\<rparr>
        \<lparr>self_ontologies = [], self_logger = [],
          self_redis_client = Some (Some \<lparr>redis_get = (\<lambda>k. Inr None),
                                           redis_setex = (\<lambda>k t b. Inl (External ''read only''))\<rparr>),
          self_config = Some \<lparr>max_workers = 4, batch_size = 1000, cache_expiry = 3600,
                               min_confidence = float_0_8\<rparr>\<rparr>
        (''GO'', ''go.obo'')) = [(''GO'', [(''GO:1'', new_term\<lparr>t_id := Some ''GO:1''\<rparr>)])] \<and>
   load_one \<lparr>fs = (\<lambda>p. Inr [''[Term]'', ''id: GO:1'']), json_loads = (\<lambda>b. Inr []),
                json_dumps = (\<lambda>g. Inr ''{}'')\<rparr>
        \<lparr>self_ontologies = [], self_logger = [],
          self_redis_client = Some (Some \<lparr>redis_get = (\<lambda>k. Inl (External ''connection refused'')),
                                           redis_setex = (\<lambda>k t b. Inr ())\<rparr>),
          self_config = None\<rparr>
        (''GO'', ''go.obo'') =
     \<lparr>self_ontologies = [], self_logger = [LoadFailed ''GO'' (External ''connection refused'')],
          self_redis_client = Some (Some \<lparr>redis_get = (\<lambda>k. Inl (External ''connection refused'')),
                                           redis_setex = (\<lambda>k t b. Inr ())\<rparr>),
          self_config = None\<rparr>"
proof -
  let ?env = "\<lparr>fs = (\<lambda>p. Inr [''[Term]'', ''id: GO:1'']), json_loads = (\<lambda>b. Inr []),
                json_dumps = (\<lambda>g. Inr ''{}'')\<rparr>"
  let ?cfg = "\<lparr>max_workers = 4, batch_size = 1000, cache_expiry = 3600, min_confidence = float_0_8\<rparr>"
  let ?rw = "\<lparr>redis_get = (\<lambda>k. Inr None), redis_setex = (\<lambda>k t b. Inl (External ''read only''))\<rparr>"
  let ?rr = "\<lparr>redis_get = (\<lambda>k. Inl (External ''connection refused'')), redis_setex = (\<lambda>k t b. Inr ())\<rparr>"
  let ?sw = "\<lparr>self_ontologies = [], self_logger = [], self_redis_client = Some (Some ?rw),
          self_config = Some ?cfg\<rparr>"
  let ?sr = "\<lparr>self_ontologies = [], self_logger = [], self_redis_client = Some (Some ?rr),
          self_config = None\<rparr>"
  let ?g = "[(''GO:1'', new_term\<lparr>t_id := Some ''GO:1''\<rparr>)]"
  have a: "self_redis_client ?sw = Some (Some ?rw)" by simp
  have b: "self_redis_client ?sr = Some (Some ?rr)" by simp
  have p: "parse_obo_file (fs ?env) ''go.obo'' = Inr ?g"
    by (simp add: parse_obo_file_def parse_obo_lines_def parse_line_def finish_def
        store_term_def set_field_def new_term_def string_ops)
  have w: "cache_lookup ?env (Some ?rw) ''GO'' = Inr None \<and> parse_obo_file (fs ?env) ''go.obo'' = Inr ?g \<and>
      cache_store ?env (self_config ?sw) (Some ?rw) ''GO'' ?g = Inl (External ''read only'')"
    using p by (simp add: cache_lookup_def cache_store_def)
  have rd: "cache_lookup ?env (Some ?rr) ''GO'' = Inl (External ''connection refused'')"
    by (simp add: cache_lookup_def)
  from cache_failure_in_load [OF a, of ?env "''GO''" "''go.obo''" ?g "External ''read only''",
      THEN conjunct1, rule_format, OF w]
    cache_failure_in_load [OF b, of ?env "''GO''" "''go.obo''" ?g "External ''connection refused''",
      THEN conjunct2, THEN conjunct1, rule_format, OF rd]
  show ?thesis by simp
qed

text \<open>
  The constructor calls the loader while \<open>redis_client\<close> is unassigned: every load ends
  in \<open>AttributeError\<close> inside the \<open>try\<close>, and no ontology is registered.
\<close>

lemma load_unassigned:
  "self_redis_client self = None \<Longrightarrow>
     self_ontologies (load_ontologies env self ontology_files) = self_ontologies self \<and>
     self_redis_client (load_ontologies env self ontology_files) = None"
  unfolding load_ontologies_def
  by (induction ontology_files arbitrary: self) (simp_all add: load_one_def load_body_def)

lemma init_registers_nothing: "self_ontologies (init env ontology_files rc cfg) = []"
  using load_unassigned [of "\<lparr>self_ontologies = [], self_logger = [], self_redis_client = None,
      self_config = None\<rparr>" env ontology_files]
  by (simp add: init_def Let_def)

section \<open>The parser and the specification of term blocks\<close>

subsection \<open>Trimming\<close>

lemma not_space_colon [simp]: "\<not> is_space CHR '':''"
  by (simp add: is_space_def whitespace_def)













subsection \<open>One line of a block\<close>



subsection \<open>The record of a block grows field by field\<close>










subsection \<open>A file of well-formed blocks\<close>






end
